theory Spec2Isabelle
  imports Main "HOL-Library.AList" "HOL-Library.Multiset" "HOL-Library.Word"
begin

section \<open>The coordination server of \<open>src/pfs/server/api_server.go\<close>\<close>

text \<open>
  The server holds three collaborators behind Go interfaces: a sharder, a router and a
  storage driver. Their implementations are not part of the server, so every method of a
  collaborator is a parameter of the model: a transformer of an abstract world \<open>'w\<close>
  (cluster membership, disks, remote nodes, the caller's stream) that returns the Go
  result. A Go result \<open>(T, error)\<close> is a value of \<open>'e + T\<close> (\<open>Inl\<close> the error), a
  result \<open>error\<close> is an \<open>'e option\<close> (\<open>None\<close> is \<open>nil\<close>).

  Next to the world the state carries the list of collaborator calls made so far, each
  with its arguments and its result, in call order: the instrumented stubs of a test.
\<close>

subsection \<open>Data\<close>

text \<open>
  The messages of package \<open>pfs\<close> are declared outside the server. The server reads
  \<open>Path\<close> of a GetFile request, \<open>Path\<close> and \<open>Value\<close> (a byte slice) of a PutFile
  request and \<open>Repository\<close> of an InitRepository request, and passes them on; paths and
  repositories are names here. Every response the server builds is the empty message.
\<close>

type_synonym byte = "8 word"
type_synonym path = string
type_synonym repository = string

record InitRepositoryRequest =
  Repository :: repository

record GetFileRequest =
  Path :: path

record PutFileRequest =
  Path :: path
  Value :: "byte list"

datatype InitRepositoryResponse = InitRepositoryResponse
datatype PutFileResponse = PutFileResponse
datatype ListFilesResponse = ListFilesResponse
datatype GetParentResponse = GetParentResponse
datatype GetChildrenResponse = GetChildrenResponse
datatype BranchResponse = BranchResponse
datatype CommitResponse = CommitResponse
datatype PushDiffResponse = PushDiffResponse
datatype GetRepositoryInfoResponse = GetRepositoryInfoResponse
datatype GetCommitInfoResponse = GetCommitInfoResponse

text \<open>The requests of the operations that never read their request.\<close>

datatype ListFilesRequest = ListFilesRequest nat
datatype GetParentRequest = GetParentRequest nat
datatype GetChildrenRequest = GetChildrenRequest nat
datatype BranchRequest = BranchRequest nat
datatype CommitRequest = CommitRequest nat
datatype PullDiffRequest = PullDiffRequest nat
datatype PushDiffRequest = PushDiffRequest nat
datatype GetRepositoryInfoRequest = GetRepositoryInfoRequest nat
datatype GetCommitInfoRequest = GetCommitInfoRequest nat

text \<open>
  Objects the server only holds a reference to: the context of a call, the client of a
  remote node, the streams. \<open>bytes.NewReader b\<close> is a reader over the whole slice \<open>b\<close>.
\<close>

datatype Context = Background | Ctx nat
datatype ApiClient = ApiClient nat
datatype ReadCloser = ReadCloser nat
datatype Api_GetFileClient = Api_GetFileClient nat
datatype Api_GetFileServer = Api_GetFileServer nat
datatype Api_PullDiffServer = Api_PullDiffServer nat
datatype Reader = NewReader "byte list"

subsection \<open>Collaborators\<close>

record ('w, 'e) Sharder =
  GetShard :: "path \<Rightarrow> 'w \<Rightarrow> ('e + int) \<times> 'w"
  NumShards :: "'w \<Rightarrow> int \<times> 'w"

record ('w, 'e) Router =
  IsLocalMasterShard :: "int \<Rightarrow> 'w \<Rightarrow> ('e + bool) \<times> 'w"
  IsLocalSlaveShard :: "int \<Rightarrow> 'w \<Rightarrow> ('e + bool) \<times> 'w"
  GetAPIClient :: "int \<Rightarrow> 'w \<Rightarrow> ('e + ApiClient) \<times> 'w"

record ('w, 'e) Driver =
  InitRepository :: "repository \<Rightarrow> int \<Rightarrow> 'w \<Rightarrow> 'e option \<times> 'w"
  GetFile :: "path \<Rightarrow> int \<Rightarrow> 'w \<Rightarrow> ('e + ReadCloser) \<times> 'w"
  PutFile :: "path \<Rightarrow> int \<Rightarrow> Reader \<Rightarrow> 'w \<Rightarrow> 'e option \<times> 'w"

record ('w, 'e) apiServer =
  sharder :: "('w, 'e) Sharder"
  router :: "('w, 'e) Router"
  driver :: "('w, 'e) Driver"

text \<open>
  What the server calls besides its three collaborators: the methods of a remote node's
  client, the two relay functions of package \<open>protoutil\<close> (not among the sources; only
  their error result reaches the server), \<open>Close\<close> of a stream, and the order in which
  the Go runtime's \<open>range\<close> visits the keys of a map, which the language leaves
  unspecified.
\<close>

record ('w, 'e) Extern =
  ClientGetFile :: "ApiClient \<Rightarrow> Context \<Rightarrow> GetFileRequest \<Rightarrow> 'w \<Rightarrow> ('e + Api_GetFileClient) \<times> 'w"
  ClientPutFile :: "ApiClient \<Rightarrow> Context \<Rightarrow> PutFileRequest \<Rightarrow> 'w \<Rightarrow> ('e + PutFileResponse) \<times> 'w"
  RelayFromStreamingBytesClient :: "Api_GetFileClient \<Rightarrow> Api_GetFileServer \<Rightarrow> 'w \<Rightarrow> 'e option \<times> 'w"
  WriteToStreamingBytesServer :: "ReadCloser \<Rightarrow> Api_GetFileServer \<Rightarrow> 'w \<Rightarrow> 'e option \<times> 'w"
  Close :: "ReadCloser \<Rightarrow> 'w \<Rightarrow> 'e option \<times> 'w"
  mapRange :: "(int \<times> bool) list \<Rightarrow> 'w \<Rightarrow> int list \<times> 'w"

subsection \<open>The log of calls\<close>

datatype 'e event =
    SharderGetShard path "'e + int"
  | SharderNumShards int
  | RouterIsLocalMasterShard int "'e + bool"
  | RouterIsLocalSlaveShard int "'e + bool"
  | RouterGetAPIClient int "'e + ApiClient"
  | DriverInitRepository repository int "'e option"
  | DriverGetFile path int "'e + ReadCloser"
  | DriverPutFile path int Reader "'e option"
  | RemoteGetFile ApiClient Context GetFileRequest "'e + Api_GetFileClient"
  | RemotePutFile ApiClient Context PutFileRequest "'e + PutFileResponse"
  | RelayFromClient Api_GetFileClient Api_GetFileServer "'e option"
  | WriteToServer ReadCloser Api_GetFileServer "'e option"
  | StreamClose ReadCloser "'e option"

record ('w, 'e) state =
  world :: 'w
  calls :: "'e event list"

definition init :: "'w \<Rightarrow> ('w, 'e) state" where
  "init w = \<lparr>world = w, calls = []\<rparr>"

text \<open>One call of a collaborator method \<open>f\<close>: run it on the world, log it with its result.\<close>

definition call :: "('a \<Rightarrow> 'e event) \<Rightarrow> ('w \<Rightarrow> 'a \<times> 'w) \<Rightarrow> ('w, 'e) state \<Rightarrow> 'a \<times> ('w, 'e) state" where
  "call ev f s = (case f (world s) of (r, w') \<Rightarrow> (r, \<lparr>world = w', calls = calls s @ [ev r]\<rparr>))"

subsection \<open>The operations that answer without a collaborator\<close>

definition ListFiles :: "('w, 'e) apiServer \<Rightarrow> Context \<Rightarrow> ListFilesRequest \<Rightarrow> ('w, 'e) state \<Rightarrow> ('e + ListFilesResponse) \<times> ('w, 'e) state" where
  "ListFiles a ctx listFilesRequest s = (Inr ListFilesResponse, s)"

definition GetParent :: "('w, 'e) apiServer \<Rightarrow> Context \<Rightarrow> GetParentRequest \<Rightarrow> ('w, 'e) state \<Rightarrow> ('e + GetParentResponse) \<times> ('w, 'e) state" where
  "GetParent a ctx getParentRequest s = (Inr GetParentResponse, s)"

definition GetChildren :: "('w, 'e) apiServer \<Rightarrow> Context \<Rightarrow> GetChildrenRequest \<Rightarrow> ('w, 'e) state \<Rightarrow> ('e + GetChildrenResponse) \<times> ('w, 'e) state" where
  "GetChildren a ctx getChildrenRequest s = (Inr GetChildrenResponse, s)"

definition Branch :: "('w, 'e) apiServer \<Rightarrow> Context \<Rightarrow> BranchRequest \<Rightarrow> ('w, 'e) state \<Rightarrow> ('e + BranchResponse) \<times> ('w, 'e) state" where
  "Branch a ctx branchRequest s = (Inr BranchResponse, s)"

definition Commit :: "('w, 'e) apiServer \<Rightarrow> Context \<Rightarrow> CommitRequest \<Rightarrow> ('w, 'e) state \<Rightarrow> ('e + CommitResponse) \<times> ('w, 'e) state" where
  "Commit a ctx commitRequest s = (Inr CommitResponse, s)"

definition PullDiff :: "('w, 'e) apiServer \<Rightarrow> PullDiffRequest \<Rightarrow> Api_PullDiffServer \<Rightarrow> ('w, 'e) state \<Rightarrow> 'e option \<times> ('w, 'e) state" where
  "PullDiff a pullDiffRequest apiPullDiffServer s = (None, s)"

definition PushDiff :: "('w, 'e) apiServer \<Rightarrow> Context \<Rightarrow> PushDiffRequest \<Rightarrow> ('w, 'e) state \<Rightarrow> ('e + PushDiffResponse) \<times> ('w, 'e) state" where
  "PushDiff a ctx pushDiffRequest s = (Inr PushDiffResponse, s)"

definition GetRepositoryInfo :: "('w, 'e) apiServer \<Rightarrow> Context \<Rightarrow> GetRepositoryInfoRequest \<Rightarrow> ('w, 'e) state \<Rightarrow> ('e + GetRepositoryInfoResponse) \<times> ('w, 'e) state" where
  "GetRepositoryInfo a ctx getRepositoryInfoRequest s = (Inr GetRepositoryInfoResponse, s)"

definition GetCommitInfo :: "('w, 'e) apiServer \<Rightarrow> Context \<Rightarrow> GetCommitInfoRequest \<Rightarrow> ('w, 'e) state \<Rightarrow> ('e + GetCommitInfoResponse) \<times> ('w, 'e) state" where
  "GetCommitInfo a ctx getCommitInfoRequest s = (Inr GetCommitInfoResponse, s)"

subsection \<open>Shard sets\<close>

text \<open>
  The loop of \<open>getShards\<close>: \<open>for i := 0; i < numShards; i++\<close>, with the map \<open>m\<close> so
  far. A \<open>map[int]bool\<close> is an association list; \<open>m[i] = true\<close> is \<open>AList.update\<close>.
  Shard numbers are Go ints. The counter stays below \<open>numShards\<close>, itself a Go int, so
  \<open>i++\<close> never wraps and the integers of the model need no bound. The predicate
  \<open>isShardFunc\<close> is a method of the router, passed with the log entry it makes.
\<close>

function getShards_loop ::
  "(int \<Rightarrow> ('w, 'e) state \<Rightarrow> ('e + bool) \<times> ('w, 'e) state) \<Rightarrow> int \<Rightarrow> int \<Rightarrow> (int \<times> bool) list
     \<Rightarrow> ('w, 'e) state \<Rightarrow> ('e + (int \<times> bool) list) \<times> ('w, 'e) state" where
  "getShards_loop isShardFunc numShards i m s =
     (if i < numShards then
        (case isShardFunc i s of
           (Inl err, s') \<Rightarrow> (Inl err, s')
         | (Inr ok, s') \<Rightarrow>
             getShards_loop isShardFunc numShards (i + 1) (if ok then AList.update i True m else m) s')
      else (Inr m, s))"
  by pat_completeness auto
termination
  by (relation "measure (\<lambda>(isShardFunc, numShards, i, m, s). nat (numShards - i))") auto

declare getShards_loop.simps [simp del]

definition getShards ::
  "('w, 'e) apiServer \<Rightarrow> (int \<Rightarrow> ('w, 'e) state \<Rightarrow> ('e + bool) \<times> ('w, 'e) state)
     \<Rightarrow> ('w, 'e) state \<Rightarrow> ('e + (int \<times> bool) list) \<times> ('w, 'e) state" where
  "getShards a isShardFunc s =
     (case call SharderNumShards (NumShards (sharder a)) s of
        (numShards, s1) \<Rightarrow> getShards_loop isShardFunc numShards 0 [] s1)"

definition getMasterShards :: "('w, 'e) apiServer \<Rightarrow> ('w, 'e) state \<Rightarrow> ('e + (int \<times> bool) list) \<times> ('w, 'e) state" where
  "getMasterShards a = getShards a (\<lambda>i. call (RouterIsLocalMasterShard i) (IsLocalMasterShard (router a) i))"

definition getSlaveShards :: "('w, 'e) apiServer \<Rightarrow> ('w, 'e) state \<Rightarrow> ('e + (int \<times> bool) list) \<times> ('w, 'e) state" where
  "getSlaveShards a = getShards a (\<lambda>i. call (RouterIsLocalSlaveShard i) (IsLocalSlaveShard (router a) i))"

subsection \<open>InitRepository\<close>

text \<open>
  One \<open>for shard := range shards\<close> loop of InitRepository over the keys in the order
  the runtime visits them: the first error of the driver ends the operation.
\<close>

fun InitRepository_loop :: "('w, 'e) apiServer \<Rightarrow> repository \<Rightarrow> int list \<Rightarrow> ('w, 'e) state \<Rightarrow> 'e option \<times> ('w, 'e) state" where
  "InitRepository_loop a repo [] s = (None, s)"
| "InitRepository_loop a repo (shard # rest) s =
     (case call (DriverInitRepository repo shard) (Driver.InitRepository (driver a) repo shard) s of
        (Some err, s') \<Rightarrow> (Some err, s')
      | (None, s') \<Rightarrow> InitRepository_loop a repo rest s')"

text \<open>The keys of a map in the order of one \<open>range\<close> over it; no collaborator is called.\<close>

definition range_keys :: "('w, 'e) Extern \<Rightarrow> (int \<times> bool) list \<Rightarrow> ('w, 'e) state \<Rightarrow> int list \<times> ('w, 'e) state" where
  "range_keys x m s = (case mapRange x m (world s) of (ks, w') \<Rightarrow> (ks, s\<lparr>world := w'\<rparr>))"

definition InitRepository ::
  "('w, 'e) apiServer \<Rightarrow> ('w, 'e) Extern \<Rightarrow> Context \<Rightarrow> InitRepositoryRequest \<Rightarrow> ('w, 'e) state
     \<Rightarrow> ('e + InitRepositoryResponse) \<times> ('w, 'e) state" where
  "InitRepository a x ctx initRepositoryRequest s =
     (case getMasterShards a s of
        (Inl err, s1) \<Rightarrow> (Inl err, s1)
      | (Inr shards, s1) \<Rightarrow>
          (case range_keys x shards s1 of
             (ks, s2) \<Rightarrow>
               (case InitRepository_loop a (Repository initRepositoryRequest) ks s2 of
                  (Some err, s3) \<Rightarrow> (Inl err, s3)
                | (None, s3) \<Rightarrow>
                    (case getSlaveShards a s3 of
                       (Inl err, s4) \<Rightarrow> (Inl err, s4)
                     | (Inr shards', s4) \<Rightarrow>
                         (case range_keys x shards' s4 of
                            (ks', s5) \<Rightarrow>
                              (case InitRepository_loop a (Repository initRepositoryRequest) ks' s5 of
                                 (Some err, s6) \<Rightarrow> (Inl err, s6)
                               | (None, s6) \<Rightarrow> (Inr InitRepositoryResponse, s6)))))))"

subsection \<open>GetFile and PutFile\<close>

definition GetFile ::
  "('w, 'e) apiServer \<Rightarrow> ('w, 'e) Extern \<Rightarrow> GetFileRequest \<Rightarrow> Api_GetFileServer \<Rightarrow> ('w, 'e) state
     \<Rightarrow> 'e option \<times> ('w, 'e) state" where
  "GetFile a x getFileRequest apiGetFileServer s =
     (case call (SharderGetShard (GetFileRequest.Path getFileRequest))
             (GetShard (sharder a) (GetFileRequest.Path getFileRequest)) s of
        (Inl err, s1) \<Rightarrow> (Some err, s1)
      | (Inr shard, s1) \<Rightarrow>
          (case call (RouterIsLocalMasterShard shard) (IsLocalMasterShard (router a) shard) s1 of
             (Inl err, s2) \<Rightarrow> (Some err, s2)
           | (Inr ok, s2) \<Rightarrow>
               if \<not> ok then
                 (case call (RouterGetAPIClient shard) (GetAPIClient (router a) shard) s2 of
                    (Inl err, s3) \<Rightarrow> (Some err, s3)
                  | (Inr apiClient, s3) \<Rightarrow>
                      (case call (RemoteGetFile apiClient Background getFileRequest)
                              (ClientGetFile x apiClient Background getFileRequest) s3 of
                         (Inl err, s4) \<Rightarrow> (Some err, s4)
                       | (Inr apiGetFileClient, s4) \<Rightarrow>
                           call (RelayFromClient apiGetFileClient apiGetFileServer)
                             (RelayFromStreamingBytesClient x apiGetFileClient apiGetFileServer) s4))
               else
                 (case call (DriverGetFile (GetFileRequest.Path getFileRequest) shard)
                         (Driver.GetFile (driver a) (GetFileRequest.Path getFileRequest) shard) s2 of
                    (Inl err, s3) \<Rightarrow> (Some err, s3)
                  | (Inr readCloser, s3) \<Rightarrow>
                      (case call (WriteToServer readCloser apiGetFileServer)
                              (WriteToStreamingBytesServer x readCloser apiGetFileServer) s3 of
                         (retErr, s4) \<Rightarrow>
                           (case call (StreamClose readCloser) (Close x readCloser) s4 of
                              (err, s5) \<Rightarrow>
                                (if err \<noteq> None \<and> retErr = None then err else retErr, s5))))))"

definition PutFile ::
  "('w, 'e) apiServer \<Rightarrow> ('w, 'e) Extern \<Rightarrow> Context \<Rightarrow> PutFileRequest \<Rightarrow> ('w, 'e) state
     \<Rightarrow> ('e + PutFileResponse) \<times> ('w, 'e) state" where
  "PutFile a x ctx putFileRequest s =
     (case call (SharderGetShard (PutFileRequest.Path putFileRequest))
             (GetShard (sharder a) (PutFileRequest.Path putFileRequest)) s of
        (Inl err, s1) \<Rightarrow> (Inl err, s1)
      | (Inr shard, s1) \<Rightarrow>
          (case call (RouterIsLocalMasterShard shard) (IsLocalMasterShard (router a) shard) s1 of
             (Inl err, s2) \<Rightarrow> (Inl err, s2)
           | (Inr ok, s2) \<Rightarrow>
               if \<not> ok then
                 (case call (RouterGetAPIClient shard) (GetAPIClient (router a) shard) s2 of
                    (Inl err, s3) \<Rightarrow> (Inl err, s3)
                  | (Inr apiClient, s3) \<Rightarrow>
                      call (RemotePutFile apiClient ctx putFileRequest)
                        (ClientPutFile x apiClient ctx putFileRequest) s3)
               else
                 (case call (DriverPutFile (PutFileRequest.Path putFileRequest) shard
                               (NewReader (Value putFileRequest)))
                         (Driver.PutFile (driver a) (PutFileRequest.Path putFileRequest) shard
                            (NewReader (Value putFileRequest))) s2 of
                    (Some err, s3) \<Rightarrow> (Inl err, s3)
                  | (None, s3) \<Rightarrow> (Inr PutFileResponse, s3))))"

subsection \<open>Reading a log\<close>

text \<open>The log of one request served from world \<open>w\<close>, and its result.\<close>

definition log_of :: "(('w, 'e) state \<Rightarrow> 'a \<times> ('w, 'e) state) \<Rightarrow> 'w \<Rightarrow> 'e event list" where
  "log_of f w = calls (snd (f (init w)))"

definition result_of :: "(('w, 'e) state \<Rightarrow> 'a \<times> ('w, 'e) state) \<Rightarrow> 'w \<Rightarrow> 'a" where
  "result_of f w = fst (f (init w))"

definition final_world :: "(('w, 'e) state \<Rightarrow> 'a \<times> ('w, 'e) state) \<Rightarrow> 'w \<Rightarrow> 'w" where
  "final_world f w = world (snd (f (init w)))"

text \<open>Calls of the storage driver, calls on a remote node, requests for a remote client.\<close>

fun is_driver_call :: "'e event \<Rightarrow> bool" where
  "is_driver_call (DriverInitRepository repo shard r) = True"
| "is_driver_call (DriverGetFile p shard r) = True"
| "is_driver_call (DriverPutFile p shard rd r) = True"
| "is_driver_call ev = False"

fun is_remote_call :: "'e event \<Rightarrow> bool" where
  "is_remote_call (RemoteGetFile c ctx req r) = True"
| "is_remote_call (RemotePutFile c ctx req r) = True"
| "is_remote_call ev = False"

fun is_client_request :: "'e event \<Rightarrow> bool" where
  "is_client_request (RouterGetAPIClient shard r) = True"
| "is_client_request ev = False"

text \<open>The use of a stream that local storage returned.\<close>

fun is_local_stream_call :: "'e event \<Rightarrow> bool" where
  "is_local_stream_call (WriteToServer rc srv r) = True"
| "is_local_stream_call (StreamClose rc r) = True"
| "is_local_stream_call ev = False"

text \<open>The shards of the driver's InitRepository calls, in call order.\<close>

fun init_shards :: "'e event list \<Rightarrow> int list" where
  "init_shards [] = []"
| "init_shards (DriverInitRepository repo shard r # evs) = shard # init_shards evs"
| "init_shards (ev # evs) = init_shards evs"

text \<open>The error a call returned, and the first error of a log.\<close>

definition sum_error :: "'e + 'a \<Rightarrow> 'e option" where
  "sum_error r = (case r of Inl e \<Rightarrow> Some e | Inr v \<Rightarrow> None)"

fun ev_error :: "'e event \<Rightarrow> 'e option" where
  "ev_error (SharderGetShard p r) = sum_error r"
| "ev_error (SharderNumShards n) = None"
| "ev_error (RouterIsLocalMasterShard shard r) = sum_error r"
| "ev_error (RouterIsLocalSlaveShard shard r) = sum_error r"
| "ev_error (RouterGetAPIClient shard r) = sum_error r"
| "ev_error (DriverInitRepository repo shard r) = r"
| "ev_error (DriverGetFile p shard r) = sum_error r"
| "ev_error (DriverPutFile p shard rd r) = r"
| "ev_error (RemoteGetFile c ctx req r) = sum_error r"
| "ev_error (RemotePutFile c ctx req r) = sum_error r"
| "ev_error (RelayFromClient c srv r) = r"
| "ev_error (WriteToServer rc srv r) = r"
| "ev_error (StreamClose rc r) = r"

fun first_error :: "'e event list \<Rightarrow> 'e option" where
  "first_error [] = None"
| "first_error (ev # evs) = (case ev_error ev of Some e \<Rightarrow> Some e | None \<Rightarrow> first_error evs)"

text \<open>The write payloads a call hands over, each as the unit it is handed over in.\<close>

fun carried :: "'e event \<Rightarrow> byte list list" where
  "carried (DriverPutFile p shard (NewReader b) r) = [b]"
| "carried (RemotePutFile c ctx req r) = [Value req]"
| "carried ev = []"

definition failed :: "'e event \<Rightarrow> bool" where
  "failed ev = (ev_error ev \<noteq> None)"

text \<open>
  For a node of \<open>n\<close> shards whose role predicate answers \<open>b\<close> without error: the map
  that \<open>getShards\<close> builds, the calls it makes, and the calls of a run of successful
  driver applications over the shards \<open>ks\<close>.
\<close>

definition role_map :: "int \<Rightarrow> (int \<Rightarrow> bool) \<Rightarrow> (int \<times> bool) list" where
  "role_map n b = map (\<lambda>j. (j, True)) (filter b [0..n - 1])"

definition role_queries :: "(int \<Rightarrow> 'e + bool \<Rightarrow> 'e event) \<Rightarrow> int \<Rightarrow> (int \<Rightarrow> bool) \<Rightarrow> 'e event list" where
  "role_queries mk n b = SharderNumShards n # map (\<lambda>j. mk j (Inr (b j))) [0..n - 1]"

definition applied :: "repository \<Rightarrow> int list \<Rightarrow> 'e event list" where
  "applied repo ks = map (\<lambda>k. DriverInitRepository repo k None) ks"

text \<open>
  The order in which InitRepository comes to the shards when \<open>range\<close> visits the keys
  of a map \<open>m\<close> in the order \<open>ord m\<close>: the master shards, then the slave shards.
\<close>

definition visit_order :: "((int \<times> bool) list \<Rightarrow> int list) \<Rightarrow> int \<Rightarrow> (int \<Rightarrow> bool) \<Rightarrow> (int \<Rightarrow> bool) \<Rightarrow> int list" where
  "visit_order ord n mst slv = ord (role_map n mst) @ ord (role_map n slv)"

subsection \<open>A node to run the operations on\<close>

text \<open>
  Four shards; a path of \<open>k\<close> characters lies on shard \<open>k mod 4\<close> and the empty path on
  none; the node is master of shards 0 and 2 and slave of shards 1 and 3. The world is
  the disk: the list of the writes the driver has made. The router fails on the shards
  of \<open>down\<close>, the driver on the shards of \<open>bad\<close>. \<open>range\<close> visits the keys of a map
  in the order \<open>ord\<close> of the keys; the relay of a local read returns \<open>werr\<close> and the
  \<open>Close\<close> of its stream \<open>cerr\<close>.
\<close>

type_synonym disk = "(int \<times> string) list"

definition demo_sharder :: "(disk, string) Sharder" where
  "demo_sharder =
     \<lparr>GetShard = (\<lambda>p w. (if p = [] then Inl ''routing'' else Inr (int (length p) mod 4), w)),
      NumShards = (\<lambda>w. (4, w))\<rparr>"

definition demo_router :: "int list \<Rightarrow> (disk, string) Router" where
  "demo_router down =
     \<lparr>IsLocalMasterShard = (\<lambda>i w. (if i \<in> set down then Inl ''router'' else Inr (i = 0 \<or> i = 2), w)),
      IsLocalSlaveShard = (\<lambda>i w. (if i \<in> set down then Inl ''router'' else Inr (i = 1 \<or> i = 3), w)),
      GetAPIClient = (\<lambda>i w. (if i \<in> set down then Inl ''unavailable'' else Inr (ApiClient (nat i)), w))\<rparr>"

definition demo_driver :: "int list \<Rightarrow> (disk, string) Driver" where
  "demo_driver bad =
     \<lparr>Driver.InitRepository = (\<lambda>repo shard w.
        if shard \<in> set bad then (Some ''disk'', w) else (None, w @ [(shard, repo)])),
      Driver.GetFile = (\<lambda>p shard w.
        if shard \<in> set bad then (Inl ''disk'', w) else (Inr (ReadCloser 7), w)),
      Driver.PutFile = (\<lambda>p shard rd w.
        if shard \<in> set bad then (Some ''disk'', w) else (None, w @ [(shard, p)]))\<rparr>"

definition demo :: "int list \<Rightarrow> int list \<Rightarrow> (disk, string) apiServer" where
  "demo down bad = \<lparr>sharder = demo_sharder, router = demo_router down, driver = demo_driver bad\<rparr>"

definition demo_extern :: "(int list \<Rightarrow> int list) \<Rightarrow> string option \<Rightarrow> string option \<Rightarrow> (disk, string) Extern" where
  "demo_extern ord werr cerr =
     \<lparr>ClientGetFile = (\<lambda>c ctx req w. (Inr (Api_GetFileClient 5), w)),
      ClientPutFile = (\<lambda>c ctx req w. (Inr PutFileResponse, w)),
      RelayFromStreamingBytesClient = (\<lambda>c srv w. (None, w)),
      WriteToStreamingBytesServer = (\<lambda>rc srv w. (werr, w)),
      Close = (\<lambda>rc w. (cerr, w)),
      mapRange = (\<lambda>m w. (ord (map fst m), w))\<rparr>"

lemmas demo_defs = demo_def demo_sharder_def demo_router_def demo_driver_def demo_extern_def

section \<open>Runs of GetFile and PutFile\<close>

text \<open>
  Each path through GetFile, named by the results of the collaborator calls on it, with
  the result, the world and the log it ends in.
\<close>

lemma GetFile_run_shard_error:
  assumes "GetShard (sharder a) (GetFileRequest.Path gr) w = (Inl e, w1)"
  shows "GetFile a x gr srv (init w) =
    (Some e, \<lparr>world = w1, calls = [SharderGetShard (GetFileRequest.Path gr) (Inl e)]\<rparr>)"
  using assms by (simp add: GetFile_def call_def init_def)

lemma GetFile_run_master_error:
  assumes "GetShard (sharder a) (GetFileRequest.Path gr) w = (Inr shard, w1)"
    and "IsLocalMasterShard (router a) shard w1 = (Inl e, w2)"
  shows "GetFile a x gr srv (init w) =
    (Some e, \<lparr>world = w2, calls = [SharderGetShard (GetFileRequest.Path gr) (Inr shard),
       RouterIsLocalMasterShard shard (Inl e)]\<rparr>)"
  using assms by (simp add: GetFile_def call_def init_def)

lemma GetFile_run_driver_error:
  assumes "GetShard (sharder a) (GetFileRequest.Path gr) w = (Inr shard, w1)"
    and "IsLocalMasterShard (router a) shard w1 = (Inr True, w2)"
    and "Driver.GetFile (driver a) (GetFileRequest.Path gr) shard w2 = (Inl e, w3)"
  shows "GetFile a x gr srv (init w) =
    (Some e, \<lparr>world = w3, calls = [SharderGetShard (GetFileRequest.Path gr) (Inr shard),
       RouterIsLocalMasterShard shard (Inr True),
       DriverGetFile (GetFileRequest.Path gr) shard (Inl e)]\<rparr>)"
  using assms by (simp add: GetFile_def call_def init_def)

lemma GetFile_run_local:
  assumes "GetShard (sharder a) (GetFileRequest.Path gr) w = (Inr shard, w1)"
    and "IsLocalMasterShard (router a) shard w1 = (Inr True, w2)"
    and "Driver.GetFile (driver a) (GetFileRequest.Path gr) shard w2 = (Inr rc, w3)"
    and "WriteToStreamingBytesServer x rc srv w3 = (werr, w4)"
    and "Close x rc w4 = (cerr, w5)"
  shows "GetFile a x gr srv (init w) =
    (if cerr \<noteq> None \<and> werr = None then cerr else werr,
     \<lparr>world = w5, calls = [SharderGetShard (GetFileRequest.Path gr) (Inr shard),
       RouterIsLocalMasterShard shard (Inr True),
       DriverGetFile (GetFileRequest.Path gr) shard (Inr rc),
       WriteToServer rc srv werr, StreamClose rc cerr]\<rparr>)"
  using assms by (simp add: GetFile_def call_def init_def)

lemma GetFile_run_client_error:
  assumes "GetShard (sharder a) (GetFileRequest.Path gr) w = (Inr shard, w1)"
    and "IsLocalMasterShard (router a) shard w1 = (Inr False, w2)"
    and "GetAPIClient (router a) shard w2 = (Inl e, w3)"
  shows "GetFile a x gr srv (init w) =
    (Some e, \<lparr>world = w3, calls = [SharderGetShard (GetFileRequest.Path gr) (Inr shard),
       RouterIsLocalMasterShard shard (Inr False),
       RouterGetAPIClient shard (Inl e)]\<rparr>)"
  using assms by (simp add: GetFile_def call_def init_def)

lemma GetFile_run_remote_error:
  assumes "GetShard (sharder a) (GetFileRequest.Path gr) w = (Inr shard, w1)"
    and "IsLocalMasterShard (router a) shard w1 = (Inr False, w2)"
    and "GetAPIClient (router a) shard w2 = (Inr c, w3)"
    and "ClientGetFile x c Background gr w3 = (Inl e, w4)"
  shows "GetFile a x gr srv (init w) =
    (Some e, \<lparr>world = w4, calls = [SharderGetShard (GetFileRequest.Path gr) (Inr shard),
       RouterIsLocalMasterShard shard (Inr False),
       RouterGetAPIClient shard (Inr c),
       RemoteGetFile c Background gr (Inl e)]\<rparr>)"
  using assms by (simp add: GetFile_def call_def init_def)

lemma GetFile_run_remote:
  assumes "GetShard (sharder a) (GetFileRequest.Path gr) w = (Inr shard, w1)"
    and "IsLocalMasterShard (router a) shard w1 = (Inr False, w2)"
    and "GetAPIClient (router a) shard w2 = (Inr c, w3)"
    and "ClientGetFile x c Background gr w3 = (Inr gc, w4)"
    and "RelayFromStreamingBytesClient x gc srv w4 = (rerr, w5)"
  shows "GetFile a x gr srv (init w) =
    (rerr, \<lparr>world = w5, calls = [SharderGetShard (GetFileRequest.Path gr) (Inr shard),
       RouterIsLocalMasterShard shard (Inr False),
       RouterGetAPIClient shard (Inr c),
       RemoteGetFile c Background gr (Inr gc),
       RelayFromClient gc srv rerr]\<rparr>)"
  using assms by (simp add: GetFile_def call_def init_def)

lemmas GetFile_runs = GetFile_run_shard_error GetFile_run_master_error GetFile_run_driver_error
  GetFile_run_local GetFile_run_client_error GetFile_run_remote_error GetFile_run_remote

text \<open>Every run of GetFile is one of these.\<close>

lemma GetFile_paths [case_names shard_error master_error driver_error local client_error remote_error remote]:
  fixes a :: "('w, 'e) apiServer" and x :: "('w, 'e) Extern"
  obtains
    (shard_error) e w1 where "GetShard (sharder a) (GetFileRequest.Path gr) w = (Inl e, w1)"
  | (master_error) shard w1 e w2 where "GetShard (sharder a) (GetFileRequest.Path gr) w = (Inr shard, w1)"
      "IsLocalMasterShard (router a) shard w1 = (Inl e, w2)"
  | (driver_error) shard w1 w2 e w3 where "GetShard (sharder a) (GetFileRequest.Path gr) w = (Inr shard, w1)"
      "IsLocalMasterShard (router a) shard w1 = (Inr True, w2)"
      "Driver.GetFile (driver a) (GetFileRequest.Path gr) shard w2 = (Inl e, w3)"
  | (local) shard w1 w2 rc w3 werr w4 cerr w5 where "GetShard (sharder a) (GetFileRequest.Path gr) w = (Inr shard, w1)"
      "IsLocalMasterShard (router a) shard w1 = (Inr True, w2)"
      "Driver.GetFile (driver a) (GetFileRequest.Path gr) shard w2 = (Inr rc, w3)"
      "WriteToStreamingBytesServer x rc srv w3 = (werr, w4)"
      "Close x rc w4 = (cerr, w5)"
  | (client_error) shard w1 w2 e w3 where "GetShard (sharder a) (GetFileRequest.Path gr) w = (Inr shard, w1)"
      "IsLocalMasterShard (router a) shard w1 = (Inr False, w2)"
      "GetAPIClient (router a) shard w2 = (Inl e, w3)"
  | (remote_error) shard w1 w2 c w3 e w4 where "GetShard (sharder a) (GetFileRequest.Path gr) w = (Inr shard, w1)"
      "IsLocalMasterShard (router a) shard w1 = (Inr False, w2)"
      "GetAPIClient (router a) shard w2 = (Inr c, w3)"
      "ClientGetFile x c Background gr w3 = (Inl e, w4)"
  | (remote) shard w1 w2 c w3 gc w4 rerr w5 where "GetShard (sharder a) (GetFileRequest.Path gr) w = (Inr shard, w1)"
      "IsLocalMasterShard (router a) shard w1 = (Inr False, w2)"
      "GetAPIClient (router a) shard w2 = (Inr c, w3)"
      "ClientGetFile x c Background gr w3 = (Inr gc, w4)"
      "RelayFromStreamingBytesClient x gc srv w4 = (rerr, w5)"
proof -
  obtain r1 w1 where g: "GetShard (sharder a) (GetFileRequest.Path gr) w = (r1, w1)"
    by (cases "GetShard (sharder a) (GetFileRequest.Path gr) w")
  show thesis
  proof (cases r1)
    case (Inl e)
    with g shard_error show thesis by simp
  next
    case (Inr shard)
    obtain r2 w2 where m: "IsLocalMasterShard (router a) shard w1 = (r2, w2)"
      by (cases "IsLocalMasterShard (router a) shard w1")
    show thesis
    proof (cases r2)
      case (Inl e)
      with g m Inr master_error show thesis by simp
    next
      case ok: (Inr ok)
      show thesis
      proof (cases ok)
        case True
        obtain r3 w3 where d: "Driver.GetFile (driver a) (GetFileRequest.Path gr) shard w2 = (r3, w3)"
          by (cases "Driver.GetFile (driver a) (GetFileRequest.Path gr) shard w2")
        show thesis
        proof (cases r3)
          case (Inl e)
          with g m Inr ok True d driver_error show thesis by simp
        next
          case rc: (Inr rc)
          obtain werr w4 where wr: "WriteToStreamingBytesServer x rc srv w3 = (werr, w4)"
            by (cases "WriteToStreamingBytesServer x rc srv w3")
          obtain cerr w5 where cl: "Close x rc w4 = (cerr, w5)"
            by (cases "Close x rc w4")
          from g m Inr ok True d rc wr cl local show thesis by simp
        qed
      next
        case False
        obtain r3 w3 where c: "GetAPIClient (router a) shard w2 = (r3, w3)"
          by (cases "GetAPIClient (router a) shard w2")
        show thesis
        proof (cases r3)
          case (Inl e)
          with g m Inr ok False c client_error show thesis by simp
        next
          case cl: (Inr cl)
          obtain r4 w4 where rg: "ClientGetFile x cl Background gr w3 = (r4, w4)"
            by (cases "ClientGetFile x cl Background gr w3")
          show thesis
          proof (cases r4)
            case (Inl e)
            with g m Inr ok False c cl rg remote_error show thesis by simp
          next
            case gc: (Inr gc)
            obtain rerr w5 where rl: "RelayFromStreamingBytesClient x gc srv w4 = (rerr, w5)"
              by (cases "RelayFromStreamingBytesClient x gc srv w4")
            from g m Inr ok False c cl rg gc rl remote show thesis by simp
          qed
        qed
      qed
    qed
  qed
qed

text \<open>The paths through PutFile.\<close>

lemma PutFile_run_shard_error:
  assumes "GetShard (sharder a) (PutFileRequest.Path pr) w = (Inl e, w1)"
  shows "PutFile a x ctx pr (init w) =
    (Inl e, \<lparr>world = w1, calls = [SharderGetShard (PutFileRequest.Path pr) (Inl e)]\<rparr>)"
  using assms by (simp add: PutFile_def call_def init_def)

lemma PutFile_run_master_error:
  assumes "GetShard (sharder a) (PutFileRequest.Path pr) w = (Inr shard, w1)"
    and "IsLocalMasterShard (router a) shard w1 = (Inl e, w2)"
  shows "PutFile a x ctx pr (init w) =
    (Inl e, \<lparr>world = w2, calls = [SharderGetShard (PutFileRequest.Path pr) (Inr shard),
       RouterIsLocalMasterShard shard (Inl e)]\<rparr>)"
  using assms by (simp add: PutFile_def call_def init_def)

lemma PutFile_run_local:
  assumes "GetShard (sharder a) (PutFileRequest.Path pr) w = (Inr shard, w1)"
    and "IsLocalMasterShard (router a) shard w1 = (Inr True, w2)"
    and "Driver.PutFile (driver a) (PutFileRequest.Path pr) shard (NewReader (Value pr)) w2 = (r, w3)"
  shows "PutFile a x ctx pr (init w) =
    (case r of Some e \<Rightarrow> Inl e | None \<Rightarrow> Inr PutFileResponse,
     \<lparr>world = w3, calls = [SharderGetShard (PutFileRequest.Path pr) (Inr shard),
       RouterIsLocalMasterShard shard (Inr True),
       DriverPutFile (PutFileRequest.Path pr) shard (NewReader (Value pr)) r]\<rparr>)"
  using assms by (cases r) (simp_all add: PutFile_def call_def init_def)

lemma PutFile_run_client_error:
  assumes "GetShard (sharder a) (PutFileRequest.Path pr) w = (Inr shard, w1)"
    and "IsLocalMasterShard (router a) shard w1 = (Inr False, w2)"
    and "GetAPIClient (router a) shard w2 = (Inl e, w3)"
  shows "PutFile a x ctx pr (init w) =
    (Inl e, \<lparr>world = w3, calls = [SharderGetShard (PutFileRequest.Path pr) (Inr shard),
       RouterIsLocalMasterShard shard (Inr False),
       RouterGetAPIClient shard (Inl e)]\<rparr>)"
  using assms by (simp add: PutFile_def call_def init_def)

lemma PutFile_run_remote:
  assumes "GetShard (sharder a) (PutFileRequest.Path pr) w = (Inr shard, w1)"
    and "IsLocalMasterShard (router a) shard w1 = (Inr False, w2)"
    and "GetAPIClient (router a) shard w2 = (Inr c, w3)"
    and "ClientPutFile x c ctx pr w3 = (r, w4)"
  shows "PutFile a x ctx pr (init w) =
    (r, \<lparr>world = w4, calls = [SharderGetShard (PutFileRequest.Path pr) (Inr shard),
       RouterIsLocalMasterShard shard (Inr False),
       RouterGetAPIClient shard (Inr c),
       RemotePutFile c ctx pr r]\<rparr>)"
  using assms by (simp add: PutFile_def call_def init_def)

lemmas PutFile_runs = PutFile_run_shard_error PutFile_run_master_error PutFile_run_local
  PutFile_run_client_error PutFile_run_remote

lemma PutFile_paths [case_names shard_error master_error local client_error remote]:
  fixes a :: "('w, 'e) apiServer" and x :: "('w, 'e) Extern"
  obtains
    (shard_error) e w1 where "GetShard (sharder a) (PutFileRequest.Path pr) w = (Inl e, w1)"
  | (master_error) shard w1 e w2 where "GetShard (sharder a) (PutFileRequest.Path pr) w = (Inr shard, w1)"
      "IsLocalMasterShard (router a) shard w1 = (Inl e, w2)"
  | (local) shard w1 w2 r w3 where "GetShard (sharder a) (PutFileRequest.Path pr) w = (Inr shard, w1)"
      "IsLocalMasterShard (router a) shard w1 = (Inr True, w2)"
      "Driver.PutFile (driver a) (PutFileRequest.Path pr) shard (NewReader (Value pr)) w2 = (r, w3)"
  | (client_error) shard w1 w2 e w3 where "GetShard (sharder a) (PutFileRequest.Path pr) w = (Inr shard, w1)"
      "IsLocalMasterShard (router a) shard w1 = (Inr False, w2)"
      "GetAPIClient (router a) shard w2 = (Inl e, w3)"
  | (remote) shard w1 w2 c w3 r w4 where "GetShard (sharder a) (PutFileRequest.Path pr) w = (Inr shard, w1)"
      "IsLocalMasterShard (router a) shard w1 = (Inr False, w2)"
      "GetAPIClient (router a) shard w2 = (Inr c, w3)"
      "ClientPutFile x c ctx pr w3 = (r, w4)"
proof -
  obtain r1 w1 where g: "GetShard (sharder a) (PutFileRequest.Path pr) w = (r1, w1)"
    by (cases "GetShard (sharder a) (PutFileRequest.Path pr) w")
  show thesis
  proof (cases r1)
    case (Inl e)
    with g shard_error show thesis by simp
  next
    case (Inr shard)
    obtain r2 w2 where m: "IsLocalMasterShard (router a) shard w1 = (r2, w2)"
      by (cases "IsLocalMasterShard (router a) shard w1")
    show thesis
    proof (cases r2)
      case (Inl e)
      with g m Inr master_error show thesis by simp
    next
      case ok: (Inr ok)
      show thesis
      proof (cases ok)
        case True
        obtain r3 w3 where d:
          "Driver.PutFile (driver a) (PutFileRequest.Path pr) shard (NewReader (Value pr)) w2 = (r3, w3)"
          by (cases "Driver.PutFile (driver a) (PutFileRequest.Path pr) shard (NewReader (Value pr)) w2")
        from g m Inr ok True d local show thesis by simp
      next
        case False
        obtain r3 w3 where c: "GetAPIClient (router a) shard w2 = (r3, w3)"
          by (cases "GetAPIClient (router a) shard w2")
        show thesis
        proof (cases r3)
          case (Inl e)
          with g m Inr ok False c client_error show thesis by simp
        next
          case cl: (Inr cl)
          obtain r4 w4 where rp: "ClientPutFile x cl ctx pr w3 = (r4, w4)"
            by (cases "ClientPutFile x cl ctx pr w3")
          from g m Inr ok False c cl rp remote show thesis by simp
        qed
      qed
    qed
  qed
qed

section \<open>Single-path operations\<close>

lemma GetFile_routing:
  fixes a :: "('w, 'e) apiServer" and x :: "('w, 'e) Extern"
  shows "take 1 (log_of (GetFile a x gr srv) w)
           = [SharderGetShard (GetFileRequest.Path gr) (fst (GetShard (sharder a) (GetFileRequest.Path gr) w))]"
    and "GetShard (sharder a) (GetFileRequest.Path gr) w = (Inr shard, w1) \<and>
         IsLocalMasterShard (router a) shard w1 = (Inr True, w2) \<longrightarrow>
           filter is_driver_call (log_of (GetFile a x gr srv) w)
             = [DriverGetFile (GetFileRequest.Path gr) shard
                  (fst (Driver.GetFile (driver a) (GetFileRequest.Path gr) shard w2))] \<and>
           filter is_remote_call (log_of (GetFile a x gr srv) w) = [] \<and>
           filter is_client_request (log_of (GetFile a x gr srv) w) = []"
    and "GetShard (sharder a) (GetFileRequest.Path gr) w = (Inr shard, w1) \<and>
         IsLocalMasterShard (router a) shard w1 = (Inr False, w2) \<longrightarrow>
           filter is_driver_call (log_of (GetFile a x gr srv) w) = [] \<and>
           filter is_local_stream_call (log_of (GetFile a x gr srv) w) = [] \<and>
           filter is_client_request (log_of (GetFile a x gr srv) w)
             = [RouterGetAPIClient shard (fst (GetAPIClient (router a) shard w2))] \<and>
           (\<forall>c w3. GetAPIClient (router a) shard w2 = (Inr c, w3) \<longrightarrow>
              filter is_remote_call (log_of (GetFile a x gr srv) w)
                = [RemoteGetFile c Background gr (fst (ClientGetFile x c Background gr w3))])"
    and "filter is_driver_call (log_of (GetFile a x gr srv) w) = [] \<or>
         filter is_remote_call (log_of (GetFile a x gr srv) w) = []"
proof -
  show "take 1 (log_of (GetFile a x gr srv) w)
           = [SharderGetShard (GetFileRequest.Path gr) (fst (GetShard (sharder a) (GetFileRequest.Path gr) w))]"
    by (cases rule: GetFile_paths [where a = a and x = x and gr = gr and srv = srv and w = w])
       (auto simp add: GetFile_runs log_of_def)
  show "GetShard (sharder a) (GetFileRequest.Path gr) w = (Inr shard, w1) \<and>
         IsLocalMasterShard (router a) shard w1 = (Inr True, w2) \<longrightarrow>
           filter is_driver_call (log_of (GetFile a x gr srv) w)
             = [DriverGetFile (GetFileRequest.Path gr) shard
                  (fst (Driver.GetFile (driver a) (GetFileRequest.Path gr) shard w2))] \<and>
           filter is_remote_call (log_of (GetFile a x gr srv) w) = [] \<and>
           filter is_client_request (log_of (GetFile a x gr srv) w) = []"
    by (cases rule: GetFile_paths [where a = a and x = x and gr = gr and srv = srv and w = w])
       (auto simp add: GetFile_runs log_of_def)
  show "GetShard (sharder a) (GetFileRequest.Path gr) w = (Inr shard, w1) \<and>
         IsLocalMasterShard (router a) shard w1 = (Inr False, w2) \<longrightarrow>
           filter is_driver_call (log_of (GetFile a x gr srv) w) = [] \<and>
           filter is_local_stream_call (log_of (GetFile a x gr srv) w) = [] \<and>
           filter is_client_request (log_of (GetFile a x gr srv) w)
             = [RouterGetAPIClient shard (fst (GetAPIClient (router a) shard w2))] \<and>
           (\<forall>c w3. GetAPIClient (router a) shard w2 = (Inr c, w3) \<longrightarrow>
              filter is_remote_call (log_of (GetFile a x gr srv) w)
                = [RemoteGetFile c Background gr (fst (ClientGetFile x c Background gr w3))])"
    by (cases rule: GetFile_paths [where a = a and x = x and gr = gr and srv = srv and w = w])
       (auto simp add: GetFile_runs log_of_def)
  show "filter is_driver_call (log_of (GetFile a x gr srv) w) = [] \<or>
         filter is_remote_call (log_of (GetFile a x gr srv) w) = []"
    by (cases rule: GetFile_paths [where a = a and x = x and gr = gr and srv = srv and w = w])
       (auto simp add: GetFile_runs log_of_def)
qed

lemma PutFile_routing:
  fixes a :: "('w, 'e) apiServer" and x :: "('w, 'e) Extern"
  shows "take 1 (log_of (PutFile a x ctx pr) w)
           = [SharderGetShard (PutFileRequest.Path pr) (fst (GetShard (sharder a) (PutFileRequest.Path pr) w))]"
    and "GetShard (sharder a) (PutFileRequest.Path pr) w = (Inr shard, w1) \<and>
         IsLocalMasterShard (router a) shard w1 = (Inr True, w2) \<longrightarrow>
           filter is_driver_call (log_of (PutFile a x ctx pr) w)
             = [DriverPutFile (PutFileRequest.Path pr) shard (NewReader (Value pr))
                  (fst (Driver.PutFile (driver a) (PutFileRequest.Path pr) shard (NewReader (Value pr)) w2))] \<and>
           filter is_remote_call (log_of (PutFile a x ctx pr) w) = [] \<and>
           filter is_client_request (log_of (PutFile a x ctx pr) w) = []"
    and "GetShard (sharder a) (PutFileRequest.Path pr) w = (Inr shard, w1) \<and>
         IsLocalMasterShard (router a) shard w1 = (Inr False, w2) \<longrightarrow>
           filter is_driver_call (log_of (PutFile a x ctx pr) w) = [] \<and>
           filter is_local_stream_call (log_of (PutFile a x ctx pr) w) = [] \<and>
           filter is_client_request (log_of (PutFile a x ctx pr) w)
             = [RouterGetAPIClient shard (fst (GetAPIClient (router a) shard w2))] \<and>
           (\<forall>c w3. GetAPIClient (router a) shard w2 = (Inr c, w3) \<longrightarrow>
              filter is_remote_call (log_of (PutFile a x ctx pr) w)
                = [RemotePutFile c ctx pr (fst (ClientPutFile x c ctx pr w3))])"
    and "filter is_driver_call (log_of (PutFile a x ctx pr) w) = [] \<or>
         filter is_remote_call (log_of (PutFile a x ctx pr) w) = []"
proof -
  show "take 1 (log_of (PutFile a x ctx pr) w)
           = [SharderGetShard (PutFileRequest.Path pr) (fst (GetShard (sharder a) (PutFileRequest.Path pr) w))]"
    by (cases rule: PutFile_paths [where a = a and x = x and pr = pr and ctx = ctx and w = w])
       (auto simp add: PutFile_runs log_of_def)
  show "GetShard (sharder a) (PutFileRequest.Path pr) w = (Inr shard, w1) \<and>
         IsLocalMasterShard (router a) shard w1 = (Inr True, w2) \<longrightarrow>
           filter is_driver_call (log_of (PutFile a x ctx pr) w)
             = [DriverPutFile (PutFileRequest.Path pr) shard (NewReader (Value pr))
                  (fst (Driver.PutFile (driver a) (PutFileRequest.Path pr) shard (NewReader (Value pr)) w2))] \<and>
           filter is_remote_call (log_of (PutFile a x ctx pr) w) = [] \<and>
           filter is_client_request (log_of (PutFile a x ctx pr) w) = []"
    by (cases rule: PutFile_paths [where a = a and x = x and pr = pr and ctx = ctx and w = w])
       (auto simp add: PutFile_runs log_of_def)
  show "GetShard (sharder a) (PutFileRequest.Path pr) w = (Inr shard, w1) \<and>
         IsLocalMasterShard (router a) shard w1 = (Inr False, w2) \<longrightarrow>
           filter is_driver_call (log_of (PutFile a x ctx pr) w) = [] \<and>
           filter is_local_stream_call (log_of (PutFile a x ctx pr) w) = [] \<and>
           filter is_client_request (log_of (PutFile a x ctx pr) w)
             = [RouterGetAPIClient shard (fst (GetAPIClient (router a) shard w2))] \<and>
           (\<forall>c w3. GetAPIClient (router a) shard w2 = (Inr c, w3) \<longrightarrow>
              filter is_remote_call (log_of (PutFile a x ctx pr) w)
                = [RemotePutFile c ctx pr (fst (ClientPutFile x c ctx pr w3))])"
    by (cases rule: PutFile_paths [where a = a and x = x and pr = pr and ctx = ctx and w = w])
       (auto simp add: PutFile_runs log_of_def)
  show "filter is_driver_call (log_of (PutFile a x ctx pr) w) = [] \<or>
         filter is_remote_call (log_of (PutFile a x ctx pr) w) = []"
    by (cases rule: PutFile_paths [where a = a and x = x and pr = pr and ctx = ctx and w = w])
       (auto simp add: PutFile_runs log_of_def)
qed

text \<open>
  Claim C1. GetFile and PutFile first compute the shard of the request path. When the
  router answers that this node is local master of the shard, the log holds exactly one
  call of the storage driver (for that path and shard), no call on a remote node and no
  request for a remote client. When it answers that this node is not, the log holds no
  call of the driver and no use of a local stream, exactly one request for the client of
  the shard's owner and, once that client is obtained, exactly one remote call: the same
  operation with the same request. No log holds both a driver call and a remote call.
\<close>

theorem single_path_routing:
  fixes a :: "('w, 'e) apiServer" and x :: "('w, 'e) Extern"
  shows
   "take 1 (log_of (GetFile a x gr srv) w)
      = [SharderGetShard (GetFileRequest.Path gr) (fst (GetShard (sharder a) (GetFileRequest.Path gr) w))] \<and>
    (GetShard (sharder a) (GetFileRequest.Path gr) w = (Inr shard, w1) \<and>
     IsLocalMasterShard (router a) shard w1 = (Inr True, w2) \<longrightarrow>
       filter is_driver_call (log_of (GetFile a x gr srv) w)
         = [DriverGetFile (GetFileRequest.Path gr) shard
              (fst (Driver.GetFile (driver a) (GetFileRequest.Path gr) shard w2))] \<and>
       filter is_remote_call (log_of (GetFile a x gr srv) w) = [] \<and>
       filter is_client_request (log_of (GetFile a x gr srv) w) = []) \<and>
    (GetShard (sharder a) (GetFileRequest.Path gr) w = (Inr shard, w1) \<and>
     IsLocalMasterShard (router a) shard w1 = (Inr False, w2) \<longrightarrow>
       filter is_driver_call (log_of (GetFile a x gr srv) w) = [] \<and>
       filter is_local_stream_call (log_of (GetFile a x gr srv) w) = [] \<and>
       filter is_client_request (log_of (GetFile a x gr srv) w)
         = [RouterGetAPIClient shard (fst (GetAPIClient (router a) shard w2))] \<and>
       (\<forall>c w3. GetAPIClient (router a) shard w2 = (Inr c, w3) \<longrightarrow>
          filter is_remote_call (log_of (GetFile a x gr srv) w)
            = [RemoteGetFile c Background gr (fst (ClientGetFile x c Background gr w3))])) \<and>
    (filter is_driver_call (log_of (GetFile a x gr srv) w) = [] \<or>
     filter is_remote_call (log_of (GetFile a x gr srv) w) = []) \<and>
    take 1 (log_of (PutFile a x ctx pr) w)
      = [SharderGetShard (PutFileRequest.Path pr) (fst (GetShard (sharder a) (PutFileRequest.Path pr) w))] \<and>
    (GetShard (sharder a) (PutFileRequest.Path pr) w = (Inr pshard, pw1) \<and>
     IsLocalMasterShard (router a) pshard pw1 = (Inr True, pw2) \<longrightarrow>
       filter is_driver_call (log_of (PutFile a x ctx pr) w)
         = [DriverPutFile (PutFileRequest.Path pr) pshard (NewReader (Value pr))
              (fst (Driver.PutFile (driver a) (PutFileRequest.Path pr) pshard (NewReader (Value pr)) pw2))] \<and>
       filter is_remote_call (log_of (PutFile a x ctx pr) w) = [] \<and>
       filter is_client_request (log_of (PutFile a x ctx pr) w) = []) \<and>
    (GetShard (sharder a) (PutFileRequest.Path pr) w = (Inr pshard, pw1) \<and>
     IsLocalMasterShard (router a) pshard pw1 = (Inr False, pw2) \<longrightarrow>
       filter is_driver_call (log_of (PutFile a x ctx pr) w) = [] \<and>
       filter is_local_stream_call (log_of (PutFile a x ctx pr) w) = [] \<and>
       filter is_client_request (log_of (PutFile a x ctx pr) w)
         = [RouterGetAPIClient pshard (fst (GetAPIClient (router a) pshard pw2))] \<and>
       (\<forall>c w3. GetAPIClient (router a) pshard pw2 = (Inr c, w3) \<longrightarrow>
          filter is_remote_call (log_of (PutFile a x ctx pr) w)
            = [RemotePutFile c ctx pr (fst (ClientPutFile x c ctx pr w3))])) \<and>
    (filter is_driver_call (log_of (PutFile a x ctx pr) w) = [] \<or>
     filter is_remote_call (log_of (PutFile a x ctx pr) w) = [])"
  by (intro conjI GetFile_routing PutFile_routing)

text \<open>
  On the node of four shards: the path \<open>ab\<close> lies on shard 2, which the node masters,
  and is served by one driver call; the path \<open>a/b.txt\<close> lies on shard 3, which it does
  not, and is served by one call on the client of shard 3.
\<close>

theorem single_path_routing_witness:
  "filter is_driver_call (log_of (GetFile (demo [] []) (demo_extern id None None)
       \<lparr>GetFileRequest.Path = ''ab''\<rparr> (Api_GetFileServer 0)) [])
     = [DriverGetFile ''ab'' 2 (Inr (ReadCloser 7))] \<and>
   filter is_remote_call (log_of (GetFile (demo [] []) (demo_extern id None None)
       \<lparr>GetFileRequest.Path = ''ab''\<rparr> (Api_GetFileServer 0)) []) = [] \<and>
   filter is_driver_call (log_of (PutFile (demo [] []) (demo_extern id None None) (Ctx 1)
       \<lparr>PutFileRequest.Path = ''ab'', Value = [1, 2, 3]\<rparr>) [])
     = [DriverPutFile ''ab'' 2 (NewReader [1, 2, 3]) None] \<and>
   filter is_remote_call (log_of (PutFile (demo [] []) (demo_extern id None None) (Ctx 1)
       \<lparr>PutFileRequest.Path = ''ab'', Value = [1, 2, 3]\<rparr>) []) = [] \<and>
   filter is_driver_call (log_of (GetFile (demo [] []) (demo_extern id None None)
       \<lparr>GetFileRequest.Path = ''a/b.txt''\<rparr> (Api_GetFileServer 0)) []) = [] \<and>
   filter is_remote_call (log_of (GetFile (demo [] []) (demo_extern id None None)
       \<lparr>GetFileRequest.Path = ''a/b.txt''\<rparr> (Api_GetFileServer 0)) [])
     = [RemoteGetFile (ApiClient 3) Background \<lparr>GetFileRequest.Path = ''a/b.txt''\<rparr> (Inr (Api_GetFileClient 5))] \<and>
   filter is_driver_call (log_of (PutFile (demo [] []) (demo_extern id None None) (Ctx 1)
       \<lparr>PutFileRequest.Path = ''a/b.txt'', Value = [1, 2, 3]\<rparr>) []) = [] \<and>
   filter is_remote_call (log_of (PutFile (demo [] []) (demo_extern id None None) (Ctx 1)
       \<lparr>PutFileRequest.Path = ''a/b.txt'', Value = [1, 2, 3]\<rparr>) [])
     = [RemotePutFile (ApiClient 3) (Ctx 1) \<lparr>PutFileRequest.Path = ''a/b.txt'', Value = [1, 2, 3]\<rparr>
          (Inr PutFileResponse)]"
  using
    single_path_routing [where a = "demo [] []" and x = "demo_extern id None None"
      and gr = "\<lparr>GetFileRequest.Path = ''ab''\<rparr>" and srv = "Api_GetFileServer 0" and w = "[]"
      and shard = 2 and ?w1.0 = "[]" and ?w2.0 = "[]" and ctx = "Ctx 1"
      and pr = "\<lparr>PutFileRequest.Path = ''ab'', Value = [1, 2, 3]\<rparr>"
      and pshard = 2 and ?pw1.0 = "[]" and ?pw2.0 = "[]"]
    single_path_routing [where a = "demo [] []" and x = "demo_extern id None None"
      and gr = "\<lparr>GetFileRequest.Path = ''a/b.txt''\<rparr>" and srv = "Api_GetFileServer 0" and w = "[]"
      and shard = 3 and ?w1.0 = "[]" and ?w2.0 = "[]" and ctx = "Ctx 1"
      and pr = "\<lparr>PutFileRequest.Path = ''a/b.txt'', Value = [1, 2, 3]\<rparr>"
      and pshard = 3 and ?pw1.0 = "[]" and ?pw2.0 = "[]"]
  by (simp add: demo_defs)

text \<open>
  Claim C6. When the sharder cannot map the path of a GetFile or PutFile request to a
  shard, the operation returns the sharder's error unchanged, and the call of the sharder
  is the only call it makes: no router, no driver, no remote node; the world is the one
  the sharder left.
\<close>

theorem shard_error_returned_first:
  fixes a :: "('w, 'e) apiServer" and x :: "('w, 'e) Extern"
  shows
   "(GetShard (sharder a) (GetFileRequest.Path gr) w = (Inl e, w1) \<longrightarrow>
       GetFile a x gr srv (init w) =
         (Some e, \<lparr>world = w1, calls = [SharderGetShard (GetFileRequest.Path gr) (Inl e)]\<rparr>)) \<and>
    (GetShard (sharder a) (PutFileRequest.Path pr) w = (Inl e', w1') \<longrightarrow>
       PutFile a x ctx pr (init w) =
         (Inl e', \<lparr>world = w1', calls = [SharderGetShard (PutFileRequest.Path pr) (Inl e')]\<rparr>))"
  by (simp add: GetFile_run_shard_error PutFile_run_shard_error)

text \<open>The sharder of the four-shard node has no shard for the empty path.\<close>

theorem shard_error_returned_first_witness:
  "GetShard (sharder (demo [] [])) [] [] = (Inl ''routing'', []) \<and>
   GetFile (demo [] []) (demo_extern id None None) \<lparr>GetFileRequest.Path = []\<rparr> (Api_GetFileServer 0) (init [])
     = (Some ''routing'', \<lparr>world = [], calls = [SharderGetShard [] (Inl ''routing'')]\<rparr>) \<and>
   PutFile (demo [] []) (demo_extern id None None) (Ctx 1) \<lparr>PutFileRequest.Path = [], Value = [1, 2, 3]\<rparr> (init [])
     = (Inl ''routing'', \<lparr>world = [], calls = [SharderGetShard [] (Inl ''routing'')]\<rparr>)"
  using shard_error_returned_first [where a = "demo [] []" and x = "demo_extern id None None"
      and gr = "\<lparr>GetFileRequest.Path = []\<rparr>" and srv = "Api_GetFileServer 0" and w = "[]"
      and e = "''routing''" and ?w1.0 = "[]" and ctx = "Ctx 1"
      and pr = "\<lparr>PutFileRequest.Path = [], Value = [1, 2, 3]\<rparr>" and e' = "''routing''" and w1' = "[]"]
  by (simp add: demo_defs)

text \<open>
  Claim C8. In a local GetFile whose driver call returned a stream, the stream is closed
  exactly once, as the last call of the operation, whatever the relay to the caller
  returned. The operation returns the relay's error when there is one, otherwise the
  result of Close.
\<close>

theorem local_GetFile_closes_stream:
  assumes "GetShard (sharder a) (GetFileRequest.Path gr) w = (Inr shard, w1)"
    and "IsLocalMasterShard (router a) shard w1 = (Inr True, w2)"
    and "Driver.GetFile (driver a) (GetFileRequest.Path gr) shard w2 = (Inr rc, w3)"
    and "WriteToStreamingBytesServer x rc srv w3 = (werr, w4)"
    and "Close x rc w4 = (cerr, w5)"
  shows "log_of (GetFile a x gr srv) w =
           [SharderGetShard (GetFileRequest.Path gr) (Inr shard),
            RouterIsLocalMasterShard shard (Inr True),
            DriverGetFile (GetFileRequest.Path gr) shard (Inr rc),
            WriteToServer rc srv werr, StreamClose rc cerr] \<and>
         result_of (GetFile a x gr srv) w = (case werr of Some e \<Rightarrow> Some e | None \<Rightarrow> cerr) \<and>
         final_world (GetFile a x gr srv) w = w5"
  by (cases werr) (simp_all add: GetFile_run_local [OF assms] log_of_def result_of_def final_world_def)

text \<open>
  A relay that succeeds before a Close that fails returns the error of Close; a relay
  that fails before a Close that fails returns the error of the relay. The stream is
  closed in both.
\<close>

theorem local_GetFile_closes_stream_witness:
  "log_of (GetFile (demo [] []) (demo_extern id None (Some ''close''))
       \<lparr>GetFileRequest.Path = ''ab''\<rparr> (Api_GetFileServer 0)) []
     = [SharderGetShard ''ab'' (Inr 2), RouterIsLocalMasterShard 2 (Inr True),
        DriverGetFile ''ab'' 2 (Inr (ReadCloser 7)),
        WriteToServer (ReadCloser 7) (Api_GetFileServer 0) None,
        StreamClose (ReadCloser 7) (Some ''close'')] \<and>
   result_of (GetFile (demo [] []) (demo_extern id None (Some ''close''))
       \<lparr>GetFileRequest.Path = ''ab''\<rparr> (Api_GetFileServer 0)) [] = Some ''close'' \<and>
   log_of (GetFile (demo [] []) (demo_extern id (Some ''write'') (Some ''close''))
       \<lparr>GetFileRequest.Path = ''ab''\<rparr> (Api_GetFileServer 0)) []
     = [SharderGetShard ''ab'' (Inr 2), RouterIsLocalMasterShard 2 (Inr True),
        DriverGetFile ''ab'' 2 (Inr (ReadCloser 7)),
        WriteToServer (ReadCloser 7) (Api_GetFileServer 0) (Some ''write''),
        StreamClose (ReadCloser 7) (Some ''close'')] \<and>
   result_of (GetFile (demo [] []) (demo_extern id (Some ''write'') (Some ''close''))
       \<lparr>GetFileRequest.Path = ''ab''\<rparr> (Api_GetFileServer 0)) [] = Some ''write''"
proof -
  have g: "GetShard (sharder (demo [] [])) (GetFileRequest.Path \<lparr>GetFileRequest.Path = ''ab''\<rparr>) [] = (Inr 2, [])"
    and m: "IsLocalMasterShard (router (demo [] [])) 2 [] = (Inr True, [])"
    and d: "Driver.GetFile (driver (demo [] [])) (GetFileRequest.Path \<lparr>GetFileRequest.Path = ''ab''\<rparr>) 2 []
              = (Inr (ReadCloser 7), [])"
    by (simp_all add: demo_defs)
  have w1: "WriteToStreamingBytesServer (demo_extern id None (Some ''close'')) (ReadCloser 7) (Api_GetFileServer 0) []
              = (None, [])"
    and c1: "Close (demo_extern id None (Some ''close'')) (ReadCloser 7) [] = (Some ''close'', [])"
    and w2: "WriteToStreamingBytesServer (demo_extern id (Some ''write'') (Some ''close'')) (ReadCloser 7)
               (Api_GetFileServer 0) [] = (Some ''write'', [])"
    and c2: "Close (demo_extern id (Some ''write'') (Some ''close'')) (ReadCloser 7) [] = (Some ''close'', [])"
    by (simp_all add: demo_defs)
  show ?thesis
    using local_GetFile_closes_stream [OF g m d w1 c1] local_GetFile_closes_stream [OF g m d w2 c2]
    by simp
qed

text \<open>
  Claim C5, as the specification states it: the payload of a PutFile is consumed as a
  stream and never held as one unit. It fails: the request holds the whole payload as
  one byte slice, and the server hands that slice to the driver in one call, inside one
  reader. Here the three bytes of a write reach the driver as one unit.
\<close>

theorem PutFile_payload_unit_counterexample:
  "concat (map carried (log_of (PutFile (demo [] []) (demo_extern id None None) (Ctx 1)
       \<lparr>PutFileRequest.Path = ''ab'', Value = [1, 2, 3]\<rparr>) [])) = [[1, 2, 3]] \<and>
   filter is_driver_call (log_of (PutFile (demo [] []) (demo_extern id None None) (Ctx 1)
       \<lparr>PutFileRequest.Path = ''ab'', Value = [1, 2, 3]\<rparr>) [])
     = [DriverPutFile ''ab'' 2 (NewReader [1, 2, 3]) None]"
  by (simp add: demo_defs PutFile_def call_def init_def log_of_def)

text \<open>
  Claim C5, amended. The request of a PutFile carries the whole payload as one byte
  slice. The server passes it on unmodified and in one piece: on the local path as the
  reader over the whole slice given to the driver's one PutFile call, on the remote path
  inside the unchanged request of the one remote PutFile call. No other call carries
  payload.
\<close>

theorem PutFile_payload_passed_whole:
  fixes a :: "('w, 'e) apiServer" and x :: "('w, 'e) Extern"
  shows
   "(GetShard (sharder a) (PutFileRequest.Path pr) w = (Inr shard, w1) \<and>
     IsLocalMasterShard (router a) shard w1 = (Inr True, w2) \<longrightarrow>
       concat (map carried (log_of (PutFile a x ctx pr) w)) = [Value pr] \<and>
       filter (\<lambda>ev. carried ev \<noteq> []) (log_of (PutFile a x ctx pr) w)
         = [DriverPutFile (PutFileRequest.Path pr) shard (NewReader (Value pr))
              (fst (Driver.PutFile (driver a) (PutFileRequest.Path pr) shard (NewReader (Value pr)) w2))]) \<and>
    (GetShard (sharder a) (PutFileRequest.Path pr) w = (Inr shard, w1) \<and>
     IsLocalMasterShard (router a) shard w1 = (Inr False, w2) \<and>
     GetAPIClient (router a) shard w2 = (Inr c, w3) \<longrightarrow>
       concat (map carried (log_of (PutFile a x ctx pr) w)) = [Value pr] \<and>
       filter (\<lambda>ev. carried ev \<noteq> []) (log_of (PutFile a x ctx pr) w)
         = [RemotePutFile c ctx pr (fst (ClientPutFile x c ctx pr w3))])"
  by (cases rule: PutFile_paths [where a = a and x = x and pr = pr and ctx = ctx and w = w])
     (auto simp add: PutFile_runs log_of_def)

theorem PutFile_payload_passed_whole_witness:
  "concat (map carried (log_of (PutFile (demo [] []) (demo_extern id None None) (Ctx 1)
       \<lparr>PutFileRequest.Path = ''ab'', Value = [1, 2, 3]\<rparr>) [])) = [[1, 2, 3]] \<and>
   filter (\<lambda>ev. carried ev \<noteq> []) (log_of (PutFile (demo [] []) (demo_extern id None None) (Ctx 1)
       \<lparr>PutFileRequest.Path = ''ab'', Value = [1, 2, 3]\<rparr>) [])
     = [DriverPutFile ''ab'' 2 (NewReader [1, 2, 3]) None] \<and>
   concat (map carried (log_of (PutFile (demo [] []) (demo_extern id None None) (Ctx 1)
       \<lparr>PutFileRequest.Path = ''a/b.txt'', Value = [1, 2, 3]\<rparr>) [])) = [[1, 2, 3]] \<and>
   filter (\<lambda>ev. carried ev \<noteq> []) (log_of (PutFile (demo [] []) (demo_extern id None None) (Ctx 1)
       \<lparr>PutFileRequest.Path = ''a/b.txt'', Value = [1, 2, 3]\<rparr>) [])
     = [RemotePutFile (ApiClient 3) (Ctx 1) \<lparr>PutFileRequest.Path = ''a/b.txt'', Value = [1, 2, 3]\<rparr>
          (Inr PutFileResponse)]"
  using
    PutFile_payload_passed_whole [where a = "demo [] []" and x = "demo_extern id None None" and ctx = "Ctx 1"
      and pr = "\<lparr>PutFileRequest.Path = ''ab'', Value = [1, 2, 3]\<rparr>" and w = "[]"
      and shard = 2 and ?w1.0 = "[]" and ?w2.0 = "[]"]
    PutFile_payload_passed_whole [where a = "demo [] []" and x = "demo_extern id None None" and ctx = "Ctx 1"
      and pr = "\<lparr>PutFileRequest.Path = ''a/b.txt'', Value = [1, 2, 3]\<rparr>" and w = "[]"
      and shard = 3 and ?w1.0 = "[]" and ?w2.0 = "[]" and c = "ApiClient 3" and ?w3.0 = "[]"]
  by (simp add: demo_defs)

section \<open>Operations that answer without a collaborator\<close>

text \<open>
  Claim C10. ListFiles, GetParent, GetChildren, Branch, Commit, GetRepositoryInfo and
  GetCommitInfo return the empty response of their kind, never an error, for every
  request, and leave the state as it is: they call no collaborator and change nothing.
\<close>

theorem stub_operations_answer_empty:
  "ListFiles a ctx listFilesRequest s = (Inr ListFilesResponse, s) \<and>
   GetParent a ctx getParentRequest s = (Inr GetParentResponse, s) \<and>
   GetChildren a ctx getChildrenRequest s = (Inr GetChildrenResponse, s) \<and>
   Branch a ctx branchRequest s = (Inr BranchResponse, s) \<and>
   Commit a ctx commitRequest s = (Inr CommitResponse, s) \<and>
   GetRepositoryInfo a ctx getRepositoryInfoRequest s = (Inr GetRepositoryInfoResponse, s) \<and>
   GetCommitInfo a ctx getCommitInfoRequest s = (Inr GetCommitInfoResponse, s)"
  by (simp add: ListFiles_def GetParent_def GetChildren_def Branch_def Commit_def
      GetRepositoryInfo_def GetCommitInfo_def)

text \<open>
  Claim C4, as the specification states it: PullDiff and PushDiff are routed like GetFile
  and PutFile, to one local driver operation or one remote call. It fails: on the
  four-shard node neither makes a driver call or a remote call, so the number of routed
  calls is not one.
\<close>

theorem diff_operations_routing_counterexample:
  "length (filter is_driver_call
      (log_of (PullDiff (demo [] []) (PullDiffRequest 2) (Api_PullDiffServer 0)) [])) +
   length (filter is_remote_call
      (log_of (PullDiff (demo [] []) (PullDiffRequest 2) (Api_PullDiffServer 0)) [])) \<noteq> 1 \<and>
   length (filter is_driver_call (log_of (PushDiff (demo [] []) (Ctx 1) (PushDiffRequest 2)) [])) +
   length (filter is_remote_call (log_of (PushDiff (demo [] []) (Ctx 1) (PushDiffRequest 2)) [])) \<noteq> 1"
  by (simp add: PullDiff_def PushDiff_def log_of_def init_def)

text \<open>
  Claim C4, amended. PullDiff and PushDiff return success at once, for every request:
  PullDiff no error, PushDiff the empty response. They call no collaborator, route
  nothing and relay nothing; the state is unchanged.
\<close>

theorem diff_operations_answer_empty:
  "PullDiff a pullDiffRequest apiPullDiffServer s = (None, s) \<and>
   PushDiff a ctx pushDiffRequest s = (Inr PushDiffResponse, s)"
  by (simp add: PullDiff_def PushDiff_def)

section \<open>Runs of InitRepository\<close>

subsection \<open>Logs\<close>

lemma first_error_append:
  "first_error (xs @ ys) = (case first_error xs of Some e \<Rightarrow> Some e | None \<Rightarrow> first_error ys)"
  by (induction xs) (auto split: option.splits)

lemma init_shards_append: "init_shards (xs @ ys) = init_shards xs @ init_shards ys"
  by (induction xs rule: init_shards.induct) simp_all

lemma init_shards_applied: "init_shards (applied repo ks) = ks"
  by (induction ks) (simp_all add: applied_def)

lemma init_shards_role_queries:
  "init_shards (role_queries RouterIsLocalMasterShard n b) = []"
  "init_shards (role_queries RouterIsLocalSlaveShard n b) = []"
proof -
  have "init_shards (map (\<lambda>j. RouterIsLocalMasterShard j (Inr (b j))) js) = []" for js
    by (induction js) simp_all
  then show "init_shards (role_queries RouterIsLocalMasterShard n b) = []"
    by (simp add: role_queries_def)
  have "init_shards (map (\<lambda>j. RouterIsLocalSlaveShard j (Inr (b j))) js) = []" for js
    by (induction js) simp_all
  then show "init_shards (role_queries RouterIsLocalSlaveShard n b) = []"
    by (simp add: role_queries_def)
qed

lemma driver_calls_applied: "filter is_driver_call (applied repo ks) = applied repo ks"
  by (induction ks) (simp_all add: applied_def)

lemma driver_calls_role_queries:
  "filter is_driver_call (role_queries RouterIsLocalMasterShard n b) = []"
  "filter is_driver_call (role_queries RouterIsLocalSlaveShard n b) = []"
  by (simp_all add: role_queries_def)

lemma failed_applied: "filter failed (applied repo ks) = []"
  by (induction ks) (simp_all add: applied_def failed_def)

subsection \<open>The loop of getShards\<close>

lemma update_fresh:
  "k \<notin> fst ` set m \<Longrightarrow> AList.update k v m = m @ [(k, v)]"
  by (induction m) auto

lemma getShards_unfold:
  "NumShards (sharder a) (world s) = (n, w1) \<Longrightarrow>
     getShards a isShardFunc s =
       getShards_loop isShardFunc n 0 [] \<lparr>world = w1, calls = calls s @ [SharderNumShards n]\<rparr>"
  by (simp add: getShards_def call_def)

text \<open>
  A predicate whose answer \<open>q j\<close> depends on the shard alone and that leaves the world
  as it is; no error from \<open>i\<close> on.
\<close>

lemma getShards_loop_pure:
  assumes pure: "\<forall>j w. f j w = (q j, w)"
  shows "\<forall>k \<in> fst ` set m. k < i \<Longrightarrow> \<forall>j. i \<le> j \<and> j < n \<longrightarrow> \<not> isl (q j) \<Longrightarrow>
     getShards_loop (\<lambda>j. call (mk j) (f j)) n i m s =
       (Inr (m @ map (\<lambda>j. (j, True)) (filter (\<lambda>j. q j = Inr True) [i..n - 1])),
        s\<lparr>calls := calls s @ map (\<lambda>j. mk j (q j)) [i..n - 1]\<rparr>)"
proof (induction "nat (n - i)" arbitrary: i m s)
  case 0
  then have "\<not> i < n" by simp
  then show ?case by (simp add: getShards_loop.simps)
next
  case (Suc d)
  then have lt: "i < n" and d: "d = nat (n - (i + 1))" by linarith+
  from Suc.prems(2) lt obtain ok where ok: "q i = Inr ok"
    by (cases "q i") auto
  have up: "[i..n - 1] = i # [i + 1..n - 1]"
    using lt by (simp add: upto_rec1)
  have c: "call (mk i) (f i) s = (Inr ok, s\<lparr>calls := calls s @ [mk i (Inr ok)]\<rparr>)"
    using pure ok by (simp add: call_def)
  have fresh: "i \<notin> fst ` set m" using Suc.prems(1) by auto
  have keys: "\<forall>k \<in> fst ` set (if ok then AList.update i True m else m). k < i + 1"
    using Suc.prems(1) fresh by (auto simp: update_fresh)
  have rest: "\<forall>j. i + 1 \<le> j \<and> j < n \<longrightarrow> \<not> isl (q j)"
    using Suc.prems(2) by auto
  show ?case
    using Suc.hyps(1) [OF d keys rest] lt c fresh ok
    by (subst getShards_loop.simps) (simp add: up update_fresh)
qed

text \<open>The same predicate with its first error at \<open>j\<close>.\<close>

lemma getShards_loop_error:
  assumes pure: "\<forall>j w. f j w = (q j, w)"
  shows "i \<le> j \<Longrightarrow> j < n \<Longrightarrow> q j = Inl e \<Longrightarrow> \<forall>k. i \<le> k \<and> k < j \<longrightarrow> \<not> isl (q k) \<Longrightarrow>
     getShards_loop (\<lambda>j. call (mk j) (f j)) n i m s =
       (Inl e, s\<lparr>calls := calls s @ map (\<lambda>j. mk j (q j)) [i..j]\<rparr>)"
proof (induction "nat (j - i)" arbitrary: i m s)
  case 0
  then have ij: "i = j" by simp
  have c: "call (mk j) (f j) s = (Inl e, s\<lparr>calls := calls s @ [mk j (Inl e)]\<rparr>)"
    using pure 0 by (simp add: call_def)
  show ?case
    using 0 c ij by (subst getShards_loop.simps) simp
next
  case (Suc d)
  then have lt: "i < j" and d: "d = nat (j - (i + 1))" by linarith+
  from Suc.prems lt obtain ok where ok: "q i = Inr ok"
    by (cases "q i") auto
  have c: "call (mk i) (f i) s = (Inr ok, s\<lparr>calls := calls s @ [mk i (Inr ok)]\<rparr>)"
    using pure ok by (simp add: call_def)
  have up: "[i..j] = i # [i + 1..j]"
    using lt by (simp add: upto_rec1)
  have rest: "\<forall>k. i + 1 \<le> k \<and> k < j \<longrightarrow> \<not> isl (q k)"
    using Suc.prems by auto
  show ?case
    using Suc.hyps(1) [OF d _ Suc.prems(2,3) rest] lt Suc.prems(2) c ok
    by (subst getShards_loop.simps) (simp add: up)
qed

lemma getShards_pure:
  assumes num: "NumShards (sharder a) (world s) = (n, world s)"
    and pure: "\<forall>j w. f j w = (q j, w)"
    and ok: "\<forall>j. 0 \<le> j \<and> j < n \<longrightarrow> \<not> isl (q j)"
  shows "getShards a (\<lambda>j. call (mk j) (f j)) s =
    (Inr (map (\<lambda>j. (j, True)) (filter (\<lambda>j. q j = Inr True) [0..n - 1])),
     s\<lparr>calls := calls s @ SharderNumShards n # map (\<lambda>j. mk j (q j)) [0..n - 1]\<rparr>)"
  using getShards_loop_pure [OF pure, of "[]" 0 n mk "\<lparr>world = world s, calls = calls s @ [SharderNumShards n]\<rparr>"] ok
  by (simp add: getShards_unfold [OF num])

lemma getShards_pure_error:
  assumes num: "NumShards (sharder a) (world s) = (n, world s)"
    and pure: "\<forall>j w. f j w = (q j, w)"
    and j: "0 \<le> j" "j < n" "q j = Inl e" "\<forall>k. 0 \<le> k \<and> k < j \<longrightarrow> \<not> isl (q k)"
  shows "getShards a (\<lambda>j. call (mk j) (f j)) s =
    (Inl e, s\<lparr>calls := calls s @ SharderNumShards n # map (\<lambda>j. mk j (q j)) [0..j]\<rparr>)"
  using getShards_loop_error [OF pure j, of mk "[]" "\<lparr>world = world s, calls = calls s @ [SharderNumShards n]\<rparr>"]
  by (simp add: getShards_unfold [OF num])

text \<open>The first shard of \<open>0 \<le> j < n\<close> at which a predicate fails, when there is one.\<close>

lemma first_failing_shard:
  fixes n :: int and q :: "int \<Rightarrow> 'e + 'b"
  assumes "\<exists>j. 0 \<le> j \<and> j < n \<and> isl (q j)"
  obtains j e where "0 \<le> j" "j < n" "q j = Inl e" "\<forall>k. 0 \<le> k \<and> k < j \<longrightarrow> \<not> isl (q k)"
proof -
  from assms obtain j0 where j0: "0 \<le> j0" "j0 < n" "isl (q j0)" by blast
  define P where "P k \<longleftrightarrow> isl (q (int k))" for k
  have "P (nat j0)" using j0 by (simp add: P_def)
  then obtain k where k: "P k" "\<forall>l<k. \<not> P l" "k \<le> nat j0"
    by (metis exists_least_iff not_le_imp_less)
  from k(1) obtain e where e: "q (int k) = Inl e"
    by (cases "q (int k)") (auto simp: P_def)
  have "\<forall>l. 0 \<le> l \<and> l < int k \<longrightarrow> \<not> isl (q l)"
  proof (intro allI impI)
    fix l assume l: "0 \<le> l \<and> l < int k"
    then have "nat l < k" by linarith
    with k(2) have "\<not> P (nat l)" by blast
    with l show "\<not> isl (q l)" by (simp add: P_def)
  qed
  moreover have "0 \<le> int k" "int k < n" using k(3) j0 by linarith+
  ultimately show thesis using that e by blast
qed

subsection \<open>Collaborators of any behaviour\<close>

lemma getShards_loop_first_error:
  assumes mk: "\<forall>j r. ev_error (mk j r) = sum_error r"
  shows "first_error (calls s) = None \<Longrightarrow>
     first_error (calls (snd (getShards_loop (\<lambda>j. call (mk j) (f j)) n i m s)))
       = sum_error (fst (getShards_loop (\<lambda>j. call (mk j) (f j)) n i m s))"
proof (induction "nat (n - i)" arbitrary: i m s)
  case 0
  then have "\<not> i < n" by simp
  with 0 show ?case by (simp add: getShards_loop.simps sum_error_def)
next
  case (Suc d)
  then have lt: "i < n" and d: "d = nat (n - (i + 1))" by linarith+
  obtain r w' where f: "f i (world s) = (r, w')" by (cases "f i (world s)")
  let ?s' = "\<lparr>world = w', calls = calls s @ [mk i r]\<rparr>"
  have c: "call (mk i) (f i) s = (r, ?s')" using f by (simp add: call_def)
  show ?case
  proof (cases r)
    case (Inl e)
    with lt c mk Suc.prems show ?thesis
      by (subst (1 2) getShards_loop.simps) (simp add: first_error_append sum_error_def)
  next
    case (Inr ok)
    have clean: "first_error (calls ?s') = None"
      using Suc.prems mk Inr by (simp add: first_error_append sum_error_def)
    show ?thesis
      using Suc.hyps(1) [OF d clean] lt c Inr
      by (subst (1 2) getShards_loop.simps) simp
  qed
qed

lemma getShards_loop_driver_calls:
  assumes mk: "\<forall>j r. \<not> is_driver_call (mk j r)"
  shows "filter is_driver_call (calls (snd (getShards_loop (\<lambda>j. call (mk j) (f j)) n i m s)))
       = filter is_driver_call (calls s)"
proof (induction "nat (n - i)" arbitrary: i m s)
  case 0
  then have "\<not> i < n" by simp
  then show ?case by (simp add: getShards_loop.simps)
next
  case (Suc d)
  then have lt: "i < n" and d: "d = nat (n - (i + 1))" by linarith+
  obtain r w' where f: "f i (world s) = (r, w')" by (cases "f i (world s)")
  let ?s' = "\<lparr>world = w', calls = calls s @ [mk i r]\<rparr>"
  have c: "call (mk i) (f i) s = (r, ?s')" using f by (simp add: call_def)
  show ?case
  proof (cases r)
    case (Inl e)
    with lt c mk show ?thesis
      by (subst getShards_loop.simps) simp
  next
    case (Inr ok)
    show ?thesis
      using Suc.hyps(1) [OF d, of "if ok then AList.update i True m else m" ?s'] lt c Inr mk
      by (subst getShards_loop.simps) simp
  qed
qed

lemma getShards_first_error:
  assumes mk: "\<forall>j r. ev_error (mk j r) = sum_error r"
    and clean: "first_error (calls s) = None"
  shows "first_error (calls (snd (getShards a (\<lambda>j. call (mk j) (f j)) s)))
       = sum_error (fst (getShards a (\<lambda>j. call (mk j) (f j)) s))"
proof -
  obtain n w1 where n: "NumShards (sharder a) (world s) = (n, w1)"
    by (cases "NumShards (sharder a) (world s)")
  have "first_error (calls s @ [SharderNumShards n]) = None"
    using clean by (simp add: first_error_append)
  then show ?thesis
    using getShards_loop_first_error [OF mk, of "\<lparr>world = w1, calls = calls s @ [SharderNumShards n]\<rparr>" f n 0 "[]"]
    by (simp add: getShards_unfold [OF n])
qed

lemma getShards_driver_calls:
  assumes mk: "\<forall>j r. \<not> is_driver_call (mk j r)"
  shows "filter is_driver_call (calls (snd (getShards a (\<lambda>j. call (mk j) (f j)) s)))
       = filter is_driver_call (calls s)"
proof -
  obtain n w1 where n: "NumShards (sharder a) (world s) = (n, w1)"
    by (cases "NumShards (sharder a) (world s)")
  show ?thesis
    by (simp add: getShards_unfold [OF n] getShards_loop_driver_calls [OF mk])
qed

subsection \<open>The loop over the shards of a role\<close>

lemma InitRepository_loop_first_error:
  "first_error (calls s) = None \<Longrightarrow>
     first_error (calls (snd (InitRepository_loop a repo ks s))) = fst (InitRepository_loop a repo ks s)"
proof (induction ks arbitrary: s)
  case Nil
  then show ?case by simp
next
  case (Cons k ks)
  obtain r w' where d: "Driver.InitRepository (driver a) repo k (world s) = (r, w')"
    by (cases "Driver.InitRepository (driver a) repo k (world s)")
  show ?case
  proof (cases r)
    case None
    have "first_error (calls s @ [DriverInitRepository repo k None]) = None"
      using Cons.prems by (simp add: first_error_append)
    then show ?thesis
      using Cons.IH [of "\<lparr>world = w', calls = calls s @ [DriverInitRepository repo k None]\<rparr>"] d None
      by (simp add: call_def)
  next
    case (Some e)
    with d Cons.prems show ?thesis by (simp add: call_def first_error_append)
  qed
qed

text \<open>
  The loop logs one successful application for each shard in turn and either reaches the
  end of the list or stops at the first application that fails.
\<close>

lemma InitRepository_loop_log:
  "InitRepository_loop a repo ks s = (r, s') \<Longrightarrow>
     (case r of
        None \<Rightarrow> calls s' = calls s @ applied repo ks
      | Some e \<Rightarrow> \<exists>k<length ks. calls s' = calls s @ applied repo (take k ks) @ [DriverInitRepository repo (ks ! k) (Some e)])"
proof (induction ks arbitrary: s)
  case Nil
  then show ?case by (auto simp: applied_def)
next
  case (Cons j ks)
  obtain r1 w' where d: "Driver.InitRepository (driver a) repo j (world s) = (r1, w')"
    by (cases "Driver.InitRepository (driver a) repo j (world s)")
  show ?case
  proof (cases r1)
    case (Some e)
    with d Cons.prems have "r = Some e" "calls s' = calls s @ [DriverInitRepository repo j (Some e)]"
      by (auto simp: call_def)
    then have "calls s' = calls s @ applied repo (take 0 (j # ks)) @ [DriverInitRepository repo ((j # ks) ! 0) (Some e)]"
      by (simp add: applied_def)
    with \<open>r = Some e\<close> show ?thesis by (auto simp del: take_0 nth_Cons_0)
  next
    case None
    let ?s1 = "\<lparr>world = w', calls = calls s @ [DriverInitRepository repo j None]\<rparr>"
    from d None Cons.prems have run: "InitRepository_loop a repo ks ?s1 = (r, s')"
      by (simp add: call_def)
    note ih = Cons.IH [OF run]
    show ?thesis
    proof (cases r)
      case None
      with ih show ?thesis by (simp add: applied_def)
    next
      case (Some e)
      with ih obtain k where k: "k < length ks"
        "calls s' = calls ?s1 @ applied repo (take k ks) @ [DriverInitRepository repo (ks ! k) (Some e)]"
        by auto
      then have "Suc k < length (j # ks)"
        "calls s' = calls s @ applied repo (take (Suc k) (j # ks)) @ [DriverInitRepository repo ((j # ks) ! Suc k) (Some e)]"
        by (simp_all add: applied_def)
      with Some show ?thesis by (auto simp del: take_Suc_Cons nth_Cons_Suc)
    qed
  qed
qed

lemma range_keys_calls: "calls (snd (range_keys x m s)) = calls s"
  by (simp add: range_keys_def split: prod.splits)

subsection \<open>InitRepository on collaborators of any behaviour\<close>

lemma InitRepository_first_error:
  fixes a :: "('w, 'e) apiServer"
  shows "first_error (log_of (InitRepository a x ctx req) w) = sum_error (result_of (InitRepository a x ctx req) w)"
proof -
  let ?mk1 = "RouterIsLocalMasterShard" and ?mk2 = "RouterIsLocalSlaveShard"
  have m1: "\<forall>j r. ev_error (?mk1 j r) = sum_error r" and m2: "\<forall>j r. ev_error (?mk2 j r) = sum_error r"
    by simp_all
  have clean0: "first_error (calls (init w :: ('w, 'e) state)) = None" by (simp add: init_def)
  obtain r1 s1 where g1: "getMasterShards a (init w) = (r1, s1)" by (cases "getMasterShards a (init w)")
  have e1: "first_error (calls s1) = sum_error r1"
    using getShards_first_error [OF m1 clean0, of a "IsLocalMasterShard (router a)"] g1
    by (simp add: getMasterShards_def)
  show ?thesis
  proof (cases r1)
    case (Inl e)
    with g1 e1 show ?thesis by (simp add: InitRepository_def log_of_def result_of_def sum_error_def)
  next
    case (Inr shards)
    obtain ks s2 where k2: "range_keys x shards s1 = (ks, s2)" by (cases "range_keys x shards s1")
    have c2: "first_error (calls s2) = None"
      using range_keys_calls [of x shards s1] k2 e1 Inr by (simp add: sum_error_def)
    obtain r3 s3 where l3: "InitRepository_loop a (Repository req) ks s2 = (r3, s3)"
      by (cases "InitRepository_loop a (Repository req) ks s2")
    have e3: "first_error (calls s3) = r3"
      using InitRepository_loop_first_error [OF c2, of a "Repository req" ks] l3 by simp
    show ?thesis
    proof (cases r3)
      case (Some e)
      with g1 Inr k2 l3 e3 show ?thesis
        by (simp add: InitRepository_def log_of_def result_of_def sum_error_def)
    next
      case None
      obtain r4 s4 where g4: "getSlaveShards a s3 = (r4, s4)" by (cases "getSlaveShards a s3")
      have e4: "first_error (calls s4) = sum_error r4"
        using getShards_first_error [OF m2, of s3 a "IsLocalSlaveShard (router a)"] g4 e3 None
        by (simp add: getSlaveShards_def)
      show ?thesis
      proof (cases r4)
        case (Inl e)
        with g1 Inr k2 l3 None g4 e4 show ?thesis
          by (simp add: InitRepository_def log_of_def result_of_def sum_error_def)
      next
        case shards': (Inr shards')
        obtain ks' s5 where k5: "range_keys x shards' s4 = (ks', s5)" by (cases "range_keys x shards' s4")
        have c5: "first_error (calls s5) = None"
          using range_keys_calls [of x shards' s4] k5 e4 shards' by (simp add: sum_error_def)
        obtain r6 s6 where l6: "InitRepository_loop a (Repository req) ks' s5 = (r6, s6)"
          by (cases "InitRepository_loop a (Repository req) ks' s5")
        have e6: "first_error (calls s6) = r6"
          using InitRepository_loop_first_error [OF c5, of a "Repository req" ks'] l6 by simp
        from g1 Inr k2 l3 None g4 shards' k5 l6 e6 show ?thesis
          by (cases r6) (simp_all add: InitRepository_def log_of_def result_of_def sum_error_def)
      qed
    qed
  qed
qed

lemma InitRepository_master_query_error:
  fixes a :: "('w, 'e) apiServer"
  assumes "result_of (getMasterShards a) w = Inl e"
  shows "InitRepository a x ctx req (init w) = (Inl e, snd (getMasterShards a (init w)))"
    and "filter is_driver_call (log_of (InitRepository a x ctx req) w) = []"
proof -
  obtain r1 s1 where g1: "getMasterShards a (init w) = (r1, s1)" by (cases "getMasterShards a (init w)")
  with assms have r1: "r1 = Inl e" by (simp add: result_of_def)
  show run: "InitRepository a x ctx req (init w) = (Inl e, snd (getMasterShards a (init w)))"
    using g1 r1 by (simp add: InitRepository_def)
  have "filter is_driver_call (calls (snd (getMasterShards a (init w)))) = []"
    using getShards_driver_calls [of RouterIsLocalMasterShard a "IsLocalMasterShard (router a)" "init w"]
    by (simp add: getMasterShards_def init_def)
  then show "filter is_driver_call (log_of (InitRepository a x ctx req) w) = []"
    by (simp add: log_of_def run)
qed

lemma GetFile_first_error:
  fixes a :: "('w, 'e) apiServer" and x :: "('w, 'e) Extern"
  shows "first_error (log_of (GetFile a x gr srv) w) = result_of (GetFile a x gr srv) w"
  by (cases rule: GetFile_paths [where a = a and x = x and gr = gr and srv = srv and w = w])
     (auto simp add: GetFile_runs log_of_def result_of_def sum_error_def split: option.splits)

lemma PutFile_first_error:
  fixes a :: "('w, 'e) apiServer" and x :: "('w, 'e) Extern"
  shows "first_error (log_of (PutFile a x ctx pr) w) = sum_error (result_of (PutFile a x ctx pr) w)"
  by (cases rule: PutFile_paths [where a = a and x = x and pr = pr and ctx = ctx and w = w])
     (auto simp add: PutFile_runs log_of_def result_of_def sum_error_def split: option.splits sum.splits)

text \<open>
  Claim C7, as the specification states it: a collaborator's error reaches the caller
  wrapped with the shard and the role it arose on. It fails: the server returns the
  collaborator's error value itself. The driver of this node fails with the same error
  on every bad shard, and a write to shard 2, a write to shard 0, an initialisation
  failing on master shard 0 and one failing on slave shard 1 all return that one value:
  nothing in it tells the shard or the role.
\<close>

theorem error_context_counterexample:
  "result_of (PutFile (demo [] [0, 2]) (demo_extern id None None) (Ctx 1)
      \<lparr>PutFileRequest.Path = ''ab'', Value = [1]\<rparr>) [] = Inl ''disk'' \<and>
   result_of (PutFile (demo [] [0, 2]) (demo_extern id None None) (Ctx 1)
      \<lparr>PutFileRequest.Path = ''abcd'', Value = [1]\<rparr>) [] = Inl ''disk'' \<and>
   fst (GetShard demo_sharder ''ab'' []) = Inr 2 \<and>
   fst (GetShard demo_sharder ''abcd'' []) = Inr 0 \<and>
   result_of (InitRepository (demo [] [0]) (demo_extern id None None) (Ctx 1)
      \<lparr>Repository = ''repo''\<rparr>) [] = Inl ''disk'' \<and>
   last (log_of (InitRepository (demo [] [0]) (demo_extern id None None) (Ctx 1)
      \<lparr>Repository = ''repo''\<rparr>) []) = DriverInitRepository ''repo'' 0 (Some ''disk'') \<and>
   result_of (InitRepository (demo [] [1]) (demo_extern id None None) (Ctx 1)
      \<lparr>Repository = ''repo''\<rparr>) [] = Inl ''disk'' \<and>
   last (log_of (InitRepository (demo [] [1]) (demo_extern id None None) (Ctx 1)
      \<lparr>Repository = ''repo''\<rparr>) []) = DriverInitRepository ''repo'' 1 (Some ''disk'')"
  by (simp add: demo_defs PutFile_def InitRepository_def getMasterShards_def getSlaveShards_def
      getShards_def getShards_loop.simps range_keys_def call_def init_def log_of_def result_of_def)

text \<open>
  Claim C7, amended. InitRepository, GetFile and PutFile return every collaborator error
  verbatim, with nothing added: the operation fails exactly when some call in its log
  returned an error, and what it returns is the error value of the first such call. No
  failure of a collaborator is turned into a success.
\<close>

theorem collaborator_errors_returned_verbatim:
  fixes a :: "('w, 'e) apiServer" and x :: "('w, 'e) Extern"
  shows
   "sum_error (result_of (InitRepository a x ctx req) w) = first_error (log_of (InitRepository a x ctx req) w) \<and>
    result_of (GetFile a x gr srv) w = first_error (log_of (GetFile a x gr srv) w) \<and>
    sum_error (result_of (PutFile a x ctx pr) w) = first_error (log_of (PutFile a x ctx pr) w)"
  by (simp add: InitRepository_first_error GetFile_first_error PutFile_first_error)

text \<open>
  Claim C9. For a role predicate that answers \<open>q j\<close> for shard \<open>j\<close> and a sharder that
  reports \<open>n\<close> shards, both without changing the world: when the predicate fails on no
  shard below \<open>n\<close>, getShards returns a map whose keys are exactly the shards
  \<open>0 \<le> j < n\<close> on which the predicate answered true, each with the value true; when it
  fails, getShards returns the error of the first shard it fails on; the world is
  unchanged either way. When the master-set query of InitRepository returns an error,
  InitRepository returns that error in the state the query left, and its log holds no
  call of the driver.
\<close>

theorem getShards_role_set:
  fixes a :: "('w, 'e) apiServer" and x :: "('w, 'e) Extern"
  assumes num: "NumShards (sharder a) w = (n, w)"
    and pure: "\<forall>j w'. f j w' = (q j, w')"
  shows
   "((\<forall>j. 0 \<le> j \<and> j < n \<longrightarrow> \<not> isl (q j)) \<longrightarrow>
       (\<exists>m. result_of (getShards a (\<lambda>j. call (mk j) (f j))) w = Inr m \<and> distinct (map fst m) \<and>
            set m = {(j, True) |j. 0 \<le> j \<and> j < n \<and> q j = Inr True})) \<and>
    (\<forall>j e. 0 \<le> j \<and> j < n \<and> q j = Inl e \<and> (\<forall>k. 0 \<le> k \<and> k < j \<longrightarrow> \<not> isl (q k)) \<longrightarrow>
       result_of (getShards a (\<lambda>j. call (mk j) (f j))) w = Inl e) \<and>
    ((\<exists>j. 0 \<le> j \<and> j < n \<and> isl (q j)) \<longrightarrow>
       isl (result_of (getShards a (\<lambda>j. call (mk j) (f j))) w)) \<and>
    final_world (getShards a (\<lambda>j. call (mk j) (f j))) w = w \<and>
    (\<forall>e. result_of (getMasterShards a) w = Inl e \<longrightarrow>
       InitRepository a x ctx req (init w) = (Inl e, snd (getMasterShards a (init w))) \<and>
       filter is_driver_call (log_of (InitRepository a x ctx req) w) = [])"
proof -
  let ?g = "getShards a (\<lambda>j. call (mk j) (f j))"
  have num': "NumShards (sharder a) (world (init w :: ('w, 'e) state)) = (n, world (init w :: ('w, 'e) state))"
    using num by (simp add: init_def)
  have ok: "\<exists>m. result_of ?g w = Inr m \<and> distinct (map fst m) \<and>
            set m = {(j, True) |j. 0 \<le> j \<and> j < n \<and> q j = Inr True}"
      and ok_world: "final_world ?g w = w"
    if "\<forall>j. 0 \<le> j \<and> j < n \<longrightarrow> \<not> isl (q j)"
  proof -
    note run = getShards_pure [OF num' pure that, of mk]
    have "distinct (map fst (map (\<lambda>j. (j, True)) (filter (\<lambda>j. q j = Inr True) [0..n - 1])))"
      by (simp add: comp_def)
    moreover have "set (map (\<lambda>j. (j, True)) (filter (\<lambda>j. q j = Inr True) [0..n - 1]))
        = {(j, True) |j. 0 \<le> j \<and> j < n \<and> q j = Inr True}"
      by auto
    ultimately show "\<exists>m. result_of ?g w = Inr m \<and> distinct (map fst m) \<and>
            set m = {(j, True) |j. 0 \<le> j \<and> j < n \<and> q j = Inr True}"
      unfolding result_of_def run by (intro exI conjI) (rule refl fst_conv [THEN trans] | assumption)+
    show "final_world ?g w = w"
      unfolding final_world_def run by (simp add: init_def)
  qed
  have err: "result_of ?g w = Inl e" and err_world: "final_world ?g w = w"
    if "0 \<le> j" "j < n" "q j = Inl e" "\<forall>k. 0 \<le> k \<and> k < j \<longrightarrow> \<not> isl (q k)" for j e
    using getShards_pure_error [OF num' pure that, of mk]
    by (simp_all add: result_of_def final_world_def init_def)
  have some: "isl (result_of ?g w)" if "\<exists>j. 0 \<le> j \<and> j < n \<and> isl (q j)"
    using first_failing_shard [OF that] err by (metis sum.disc(1))
  have world: "final_world ?g w = w"
  proof (cases "\<exists>j. 0 \<le> j \<and> j < n \<and> isl (q j)")
    case True
    then show ?thesis using first_failing_shard [OF True] err_world by metis
  next
    case False
    then show ?thesis using ok_world by blast
  qed
  show ?thesis
    using ok err some world InitRepository_master_query_error [of a w _ x ctx req]
    by blast
qed

text \<open>
  The master predicate of the four-shard node answers for every shard, and the map has
  the keys 0 and 2. With the router down for shard 2 the master-set query returns the
  router's error, InitRepository returns it, the driver is not called and the disk is
  as it was.
\<close>

theorem getShards_role_set_witness:
  "(\<exists>m. result_of (getMasterShards (demo [] [])) [] = Inr m \<and> distinct (map fst m) \<and>
        set m = {(0, True), (2, True)}) \<and>
   result_of (getMasterShards (demo [2] [])) [] = Inl ''router'' \<and>
   final_world (getMasterShards (demo [2] [])) [] = [] \<and>
   InitRepository (demo [2] []) (demo_extern id None None) (Ctx 1) \<lparr>Repository = ''repo''\<rparr> (init [])
     = (Inl ''router'', snd (getMasterShards (demo [2] []) (init []))) \<and>
   filter is_driver_call (log_of (InitRepository (demo [2] []) (demo_extern id None None) (Ctx 1)
      \<lparr>Repository = ''repo''\<rparr>) []) = []"
proof -
  let ?q1 = "\<lambda>j::int. Inr (j = 0 \<or> j = 2) :: string + bool"
  let ?q2 = "\<lambda>j::int. if j = 2 then Inl ''router'' else Inr (j = 0 \<or> j = 2) :: string + bool"
  have num1: "NumShards (sharder (demo [] [])) [] = (4, [])"
    and pure1: "\<forall>j w'. IsLocalMasterShard (router (demo [] [])) j w' = (?q1 j, w')"
    and num2: "NumShards (sharder (demo [2] [])) [] = (4, [])"
    and pure2: "\<forall>j w'. IsLocalMasterShard (router (demo [2] [])) j w' = (?q2 j, w')"
    by (simp_all add: demo_defs)
  note t1 = getShards_role_set [OF num1 pure1, where mk = RouterIsLocalMasterShard
      and x = "demo_extern id None None" and ctx = "Ctx 1" and req = "\<lparr>Repository = ''repo''\<rparr>"]
  note t2 = getShards_role_set [OF num2 pure2, where mk = RouterIsLocalMasterShard
      and x = "demo_extern id None None" and ctx = "Ctx 1" and req = "\<lparr>Repository = ''repo''\<rparr>"]
  have keys: "{(j, True) |j. 0 \<le> j \<and> j < 4 \<and> ?q1 j = Inr True} = {(0, True), (2, True)}"
    by auto
  have a: "\<exists>m. result_of (getMasterShards (demo [] [])) [] = Inr m \<and> distinct (map fst m) \<and>
        set m = {(0, True), (2, True)}"
    using t1 [THEN conjunct1] unfolding keys getMasterShards_def by simp
  have b: "result_of (getMasterShards (demo [2] [])) [] = Inl ''router''"
    using t2 [THEN conjunct2, THEN conjunct1, rule_format, of 2 "''router''"]
    unfolding getMasterShards_def by simp
  have c: "final_world (getMasterShards (demo [2] [])) [] = []"
    using t2 unfolding getMasterShards_def by blast
  from t2 b have "InitRepository (demo [2] []) (demo_extern id None None) (Ctx 1) \<lparr>Repository = ''repo''\<rparr> (init [])
     = (Inl ''router'', snd (getMasterShards (demo [2] []) (init []))) \<and>
   filter is_driver_call (log_of (InitRepository (demo [2] []) (demo_extern id None None) (Ctx 1)
      \<lparr>Repository = ''repo''\<rparr>) []) = []"
    by blast
  with a b c show ?thesis by blast
qed

subsection \<open>InitRepository on a node with fixed roles\<close>

text \<open>
  The sharder reports \<open>n\<close> shards, the router answers \<open>mst\<close> and \<open>slv\<close> without error,
  and none of the three changes the world. Then a run of InitRepository is one of three:
  it applies every master and every slave shard; it stops at a master shard; it applies
  every master shard and stops at a slave shard.
\<close>

lemma InitRepository_pure_runs [consumes 3, case_names success master_failure slave_failure]:
  fixes a :: "('w, 'e) apiServer" and x :: "('w, 'e) Extern"
  assumes num: "\<forall>w. NumShards (sharder a) w = (n, w)"
    and master: "\<forall>j w. IsLocalMasterShard (router a) j w = (Inr (mst j), w)"
    and slave: "\<forall>j w. IsLocalSlaveShard (router a) j w = (Inr (slv j), w)"
  obtains
    (success) ms w1 w2 ss w3 where
      "mapRange x (role_map n mst) w = (ms, w1)" "mapRange x (role_map n slv) w2 = (ss, w3)"
      "result_of (InitRepository a x ctx req) w = Inr InitRepositoryResponse"
      "log_of (InitRepository a x ctx req) w =
         role_queries RouterIsLocalMasterShard n mst @ applied (Repository req) ms @
         role_queries RouterIsLocalSlaveShard n slv @ applied (Repository req) ss"
  | (master_failure) ms w1 k e where
      "mapRange x (role_map n mst) w = (ms, w1)" "k < length ms"
      "result_of (InitRepository a x ctx req) w = Inl e"
      "log_of (InitRepository a x ctx req) w =
         role_queries RouterIsLocalMasterShard n mst @ applied (Repository req) (take k ms) @
         [DriverInitRepository (Repository req) (ms ! k) (Some e)]"
  | (slave_failure) ms w1 w2 ss w3 k e where
      "mapRange x (role_map n mst) w = (ms, w1)" "mapRange x (role_map n slv) w2 = (ss, w3)"
      "k < length ss"
      "result_of (InitRepository a x ctx req) w = Inl e"
      "log_of (InitRepository a x ctx req) w =
         role_queries RouterIsLocalMasterShard n mst @ applied (Repository req) ms @
         role_queries RouterIsLocalSlaveShard n slv @ applied (Repository req) (take k ss) @
         [DriverInitRepository (Repository req) (ss ! k) (Some e)]"
proof -
  let ?C1 = "role_queries RouterIsLocalMasterShard n mst :: 'e event list"
  let ?C2 = "role_queries RouterIsLocalSlaveShard n slv :: 'e event list"
  let ?repo = "Repository req"
  have g1: "getMasterShards a (init w) = (Inr (role_map n mst), \<lparr>world = w, calls = ?C1\<rparr>)"
    using getShards_pure [of a "init w" n "IsLocalMasterShard (router a)" "\<lambda>j. Inr (mst j)" RouterIsLocalMasterShard]
      num master
    by (simp add: getMasterShards_def init_def role_map_def role_queries_def)
  obtain ms w1 where r1: "mapRange x (role_map n mst) w = (ms, w1)"
    by (cases "mapRange x (role_map n mst) w")
  have k1: "range_keys x (role_map n mst) \<lparr>world = w, calls = ?C1\<rparr> = (ms, \<lparr>world = w1, calls = ?C1\<rparr>)"
    using r1 by (simp add: range_keys_def)
  obtain r3 s3 where l3: "InitRepository_loop a ?repo ms \<lparr>world = w1, calls = ?C1\<rparr> = (r3, s3)"
    by (cases "InitRepository_loop a ?repo ms \<lparr>world = w1, calls = ?C1\<rparr>")
  note log3 = InitRepository_loop_log [OF l3]
  show thesis
  proof (cases r3)
    case (Some e)
    with log3 obtain k where k: "k < length ms"
      "calls s3 = ?C1 @ applied ?repo (take k ms) @ [DriverInitRepository ?repo (ms ! k) (Some e)]"
      by auto
    have "InitRepository a x ctx req (init w) = (Inl e, s3)"
      using g1 k1 l3 Some by (simp add: InitRepository_def)
    then show thesis
      using master_failure [OF r1 k(1)] k(2) by (simp add: result_of_def log_of_def)
  next
    case None
    with log3 have c3: "calls s3 = ?C1 @ applied ?repo ms" by simp
    have g4: "getSlaveShards a s3 = (Inr (role_map n slv), s3\<lparr>calls := calls s3 @ ?C2\<rparr>)"
      using getShards_pure [of a s3 n "IsLocalSlaveShard (router a)" "\<lambda>j. Inr (slv j)" RouterIsLocalSlaveShard]
        num slave
      by (simp add: getSlaveShards_def role_map_def role_queries_def)
    obtain ss w3 where r4: "mapRange x (role_map n slv) (world s3) = (ss, w3)"
      by (cases "mapRange x (role_map n slv) (world s3)")
    let ?s5 = "\<lparr>world = w3, calls = calls s3 @ ?C2\<rparr>"
    have k5: "range_keys x (role_map n slv) (s3\<lparr>calls := calls s3 @ ?C2\<rparr>) = (ss, ?s5)"
      using r4 by (simp add: range_keys_def)
    obtain r6 s6 where l6: "InitRepository_loop a ?repo ss ?s5 = (r6, s6)"
      by (cases "InitRepository_loop a ?repo ss ?s5")
    note log6 = InitRepository_loop_log [OF l6]
    show thesis
    proof (cases r6)
      case r6: None
      with log6 c3 have c6: "calls s6 = ?C1 @ applied ?repo ms @ ?C2 @ applied ?repo ss" by simp
      have "InitRepository a x ctx req (init w) = (Inr InitRepositoryResponse, s6)"
        using g1 k1 l3 None g4 k5 l6 r6 by (simp add: InitRepository_def)
      then show thesis
        using success [OF r1 r4] c6 by (simp add: result_of_def log_of_def)
    next
      case (Some e)
      with log6 c3 obtain k where k: "k < length ss"
        "calls s6 = ?C1 @ applied ?repo ms @ ?C2 @ applied ?repo (take k ss) @ [DriverInitRepository ?repo (ss ! k) (Some e)]"
        by auto
      have "InitRepository a x ctx req (init w) = (Inl e, s6)"
        using g1 k1 l3 None g4 k5 l6 Some by (simp add: InitRepository_def)
      then show thesis
        using slave_failure [OF r1 r4 k(1)] k(2) by (simp add: result_of_def log_of_def)
    qed
  qed
qed

lemmas log_simps = init_shards_append init_shards_applied init_shards_role_queries
  driver_calls_applied driver_calls_role_queries failed_applied

text \<open>
  Claim C2, as the specification states it: on a node whose role predicates never fail,
  every InitRepository call applies the driver's InitRepository exactly once to each
  master shard and once to each slave shard. It fails for a call in which an application
  fails: on the node of four shards, master of 0 and 2 and slave of 1 and 3, with a
  driver that fails on shard 2, the driver is called for shards 0 and 2 and never for
  the slave shards 1 and 3.
\<close>

theorem InitRepository_every_shard_counterexample:
  "init_shards (log_of (InitRepository (demo [] [2]) (demo_extern id None None) (Ctx 1)
      \<lparr>Repository = ''repo''\<rparr>) []) = [0, 2] \<and>
   mset (init_shards (log_of (InitRepository (demo [] [2]) (demo_extern id None None) (Ctx 1)
      \<lparr>Repository = ''repo''\<rparr>) [])) \<noteq> mset [0, 2, 1, 3] \<and>
   result_of (InitRepository (demo [] [2]) (demo_extern id None None) (Ctx 1)
      \<lparr>Repository = ''repo''\<rparr>) [] = Inl ''disk''"
  by (simp add: demo_defs InitRepository_def getMasterShards_def getSlaveShards_def
      getShards_def getShards_loop.simps range_keys_def call_def init_def log_of_def result_of_def)

text \<open>
  Claim C2, amended. On a node of \<open>n\<close> shards whose role predicates never fail (and
  where \<open>range\<close> visits every key of a map once): the shards the driver's InitRepository
  is called for are an initial part of a list made of the master shards, each once,
  followed by the slave shards, each once; so it is called at most once for a shard in
  each role, for no other shard, and for no slave shard before the last master shard.
  The call returns success exactly when no application made has failed, and then the
  list is complete: every master shard, then every slave shard, exactly once, each
  application a success. When the call returns an error, the applications stop at the
  first one that fails: every driver call before it succeeded, the failing call returned
  the error the operation returns, and it is the last call of the operation, so no later
  shard of the list is applied.
\<close>

theorem InitRepository_fan_out:
  fixes a :: "('w, 'e) apiServer" and x :: "('w, 'e) Extern"
  assumes num: "\<forall>w. NumShards (sharder a) w = (n, w)"
    and master: "\<forall>j w. IsLocalMasterShard (router a) j w = (Inr (mst j), w)"
    and slave: "\<forall>j w. IsLocalSlaveShard (router a) j w = (Inr (slv j), w)"
    and range: "\<forall>m w. mset (fst (mapRange x m w)) = mset (map fst m)"
  shows "\<exists>ms ss k.
      mset ms = mset (filter mst [0..n - 1]) \<and> mset ss = mset (filter slv [0..n - 1]) \<and>
      init_shards (log_of (InitRepository a x ctx req) w) = take k (ms @ ss) \<and>
      ((result_of (InitRepository a x ctx req) w = Inr InitRepositoryResponse) =
         (filter failed (filter is_driver_call (log_of (InitRepository a x ctx req) w)) = [])) \<and>
      (result_of (InitRepository a x ctx req) w = Inr InitRepositoryResponse \<longrightarrow>
         init_shards (log_of (InitRepository a x ctx req) w) = ms @ ss \<and>
         filter is_driver_call (log_of (InitRepository a x ctx req) w) = applied (Repository req) (ms @ ss)) \<and>
      (\<forall>e. result_of (InitRepository a x ctx req) w = Inl e \<longrightarrow>
         0 < k \<and> k \<le> length (ms @ ss) \<and>
         filter is_driver_call (log_of (InitRepository a x ctx req) w)
           = applied (Repository req) (take (k - 1) (ms @ ss)) @
             [DriverInitRepository (Repository req) ((ms @ ss) ! (k - 1)) (Some e)] \<and>
         last (log_of (InitRepository a x ctx req) w)
           = DriverInitRepository (Repository req) ((ms @ ss) ! (k - 1)) (Some e))"
  using num master slave
proof (cases rule: InitRepository_pure_runs [where x = x and w = w and ctx = ctx and req = req])
  case (success ms w1 w2 ss w3)
  let ?L = "log_of (InitRepository a x ctx req) w"
  have "mset ms = mset (filter mst [0..n - 1])" "mset ss = mset (filter slv [0..n - 1])"
    using range [rule_format, of "role_map n mst" w] range [rule_format, of "role_map n slv" w2] success(1,2)
    by (simp_all add: role_map_def comp_def)
  moreover have "init_shards ?L = take (length (ms @ ss)) (ms @ ss)" "init_shards ?L = ms @ ss"
    using success(4) by (simp_all add: log_simps)
  moreover have "filter failed (filter is_driver_call ?L) = []"
    using success(4) by (simp add: log_simps)
  moreover have "filter is_driver_call ?L = applied (Repository req) (ms @ ss)"
    using success(4) by (simp add: log_simps applied_def)
  ultimately show ?thesis
    using success(3) by (intro exI [of _ ms] exI [of _ ss] exI [of _ "length (ms @ ss)"]) simp
next
  case (master_failure ms w1 k e)
  let ?L = "log_of (InitRepository a x ctx req) w"
  obtain ss w3 where ss: "mapRange x (role_map n slv) w = (ss, w3)"
    by (cases "mapRange x (role_map n slv) w")
  have "mset ms = mset (filter mst [0..n - 1])" "mset ss = mset (filter slv [0..n - 1])"
    using range [rule_format, of "role_map n mst" w] range [rule_format, of "role_map n slv" w] master_failure(1) ss
    by (simp_all add: role_map_def comp_def)
  moreover have "init_shards ?L = take (Suc k) (ms @ ss)"
    using master_failure(2,4) by (simp add: log_simps take_Suc_conv_app_nth)
  moreover have "filter failed (filter is_driver_call ?L) \<noteq> []"
    using master_failure(4) by (simp add: log_simps failed_def)
  moreover have "Suc k \<le> length (ms @ ss)"
    using master_failure(2) by simp
  moreover have "filter is_driver_call ?L
      = applied (Repository req) (take k (ms @ ss)) @ [DriverInitRepository (Repository req) ((ms @ ss) ! k) (Some e)]"
    "last ?L = DriverInitRepository (Repository req) ((ms @ ss) ! k) (Some e)"
    using master_failure(2,4) by (simp_all add: log_simps nth_append)
  ultimately show ?thesis
    using master_failure(3) by (intro exI [of _ ms] exI [of _ ss] exI [of _ "Suc k"]) simp
next
  case (slave_failure ms w1 w2 ss w3 k e)
  let ?L = "log_of (InitRepository a x ctx req) w"
  have "mset ms = mset (filter mst [0..n - 1])" "mset ss = mset (filter slv [0..n - 1])"
    using range [rule_format, of "role_map n mst" w] range [rule_format, of "role_map n slv" w2] slave_failure(1,2)
    by (simp_all add: role_map_def comp_def)
  moreover have "init_shards ?L = take (Suc (length ms + k)) (ms @ ss)"
    using slave_failure(3,5) by (simp add: log_simps take_Suc_conv_app_nth)
  moreover have "filter failed (filter is_driver_call ?L) \<noteq> []"
    using slave_failure(5) by (simp add: log_simps failed_def)
  moreover have "Suc (length ms + k) \<le> length (ms @ ss)"
    using slave_failure(3) by simp
  moreover have "filter is_driver_call ?L
      = applied (Repository req) (take (length ms + k) (ms @ ss)) @
        [DriverInitRepository (Repository req) ((ms @ ss) ! (length ms + k)) (Some e)]"
    "last ?L = DriverInitRepository (Repository req) ((ms @ ss) ! (length ms + k)) (Some e)"
    using slave_failure(3,5) by (simp_all add: log_simps nth_append applied_def)
  ultimately show ?thesis
    using slave_failure(4) by (intro exI [of _ ms] exI [of _ ss] exI [of _ "Suc (length ms + k)"]) simp
qed

text \<open>
  Four shards, master of 0 and 2, slave of 1 and 3. With a driver that never fails: four
  driver calls, the master shards 0 and 2 before the slave shards 1 and 3, each a
  success, and the call succeeds. With a driver that fails on shard 2: the call returns
  the driver's error, the failing application is the last call, and only the master
  shards were reached.
\<close>

theorem InitRepository_fan_out_witness:
  "(\<exists>ms ss. mset ms = mset [0, 2] \<and> mset ss = mset [1, 3] \<and>
     init_shards (log_of (InitRepository (demo [] []) (demo_extern id None None) (Ctx 1)
        \<lparr>Repository = ''repo''\<rparr>) []) = ms @ ss \<and>
     filter is_driver_call (log_of (InitRepository (demo [] []) (demo_extern id None None) (Ctx 1)
        \<lparr>Repository = ''repo''\<rparr>) []) = applied ''repo'' (ms @ ss) \<and>
     result_of (InitRepository (demo [] []) (demo_extern id None None) (Ctx 1)
        \<lparr>Repository = ''repo''\<rparr>) [] = Inr InitRepositoryResponse) \<and>
   (\<exists>ms ss k. mset ms = mset [0, 2] \<and> mset ss = mset [1, 3] \<and> 0 < k \<and> k \<le> length (ms @ ss) \<and>
     init_shards (log_of (InitRepository (demo [] [2]) (demo_extern id None None) (Ctx 1)
        \<lparr>Repository = ''repo''\<rparr>) []) = take k (ms @ ss) \<and>
     filter is_driver_call (log_of (InitRepository (demo [] [2]) (demo_extern id None None) (Ctx 1)
        \<lparr>Repository = ''repo''\<rparr>) [])
       = applied ''repo'' (take (k - 1) (ms @ ss)) @
         [DriverInitRepository ''repo'' ((ms @ ss) ! (k - 1)) (Some ''disk'')] \<and>
     last (log_of (InitRepository (demo [] [2]) (demo_extern id None None) (Ctx 1)
        \<lparr>Repository = ''repo''\<rparr>) [])
       = DriverInitRepository ''repo'' ((ms @ ss) ! (k - 1)) (Some ''disk'') \<and>
     result_of (InitRepository (demo [] [2]) (demo_extern id None None) (Ctx 1)
        \<lparr>Repository = ''repo''\<rparr>) [] = Inl ''disk'')"
proof -
  have num: "\<forall>w. NumShards (sharder (demo [] bad)) w = (4, w)"
    and master: "\<forall>j w. IsLocalMasterShard (router (demo [] bad)) j w = (Inr (j = 0 \<or> j = 2), w)"
    and slave: "\<forall>j w. IsLocalSlaveShard (router (demo [] bad)) j w = (Inr (j = 1 \<or> j = 3), w)"
    and range: "\<forall>m w. mset (fst (mapRange (demo_extern id None None) m w)) = mset (map fst m)"
    for bad
    by (simp_all add: demo_defs)
  have ok: "result_of (InitRepository (demo [] []) (demo_extern id None None) (Ctx 1)
        \<lparr>Repository = ''repo''\<rparr>) [] = Inr InitRepositoryResponse"
    by (simp add: demo_defs InitRepository_def getMasterShards_def getSlaveShards_def
        getShards_def getShards_loop.simps range_keys_def call_def init_def result_of_def)
  have bad: "result_of (InitRepository (demo [] [2]) (demo_extern id None None) (Ctx 1)
        \<lparr>Repository = ''repo''\<rparr>) [] = Inl ''disk''"
    by (simp add: demo_defs InitRepository_def getMasterShards_def getSlaveShards_def
        getShards_def getShards_loop.simps range_keys_def call_def init_def result_of_def)
  have m: "filter (\<lambda>j. j = 0 \<or> j = 2) [0..4 - 1] = [0, 2::int]"
    and s: "filter (\<lambda>j. j = 1 \<or> j = 3) [0..4 - 1] = [1, 3::int]"
    by (simp_all add: upto_rec1)
  have first: "\<exists>ms ss. mset ms = mset [0, 2] \<and> mset ss = mset [1, 3] \<and>
     init_shards (log_of (InitRepository (demo [] []) (demo_extern id None None) (Ctx 1)
        \<lparr>Repository = ''repo''\<rparr>) []) = ms @ ss \<and>
     filter is_driver_call (log_of (InitRepository (demo [] []) (demo_extern id None None) (Ctx 1)
        \<lparr>Repository = ''repo''\<rparr>) []) = applied ''repo'' (ms @ ss) \<and>
     result_of (InitRepository (demo [] []) (demo_extern id None None) (Ctx 1)
        \<lparr>Repository = ''repo''\<rparr>) [] = Inr InitRepositoryResponse"
    using InitRepository_fan_out [OF num master slave range, of "[]" "Ctx 1" "\<lparr>Repository = ''repo''\<rparr>" "[]"] ok
    unfolding m s by (elim exE conjE) (intro exI conjI, simp_all)
  have second: "\<exists>ms ss k. mset ms = mset [0, 2] \<and> mset ss = mset [1, 3] \<and> 0 < k \<and> k \<le> length (ms @ ss) \<and>
     init_shards (log_of (InitRepository (demo [] [2]) (demo_extern id None None) (Ctx 1)
        \<lparr>Repository = ''repo''\<rparr>) []) = take k (ms @ ss) \<and>
     filter is_driver_call (log_of (InitRepository (demo [] [2]) (demo_extern id None None) (Ctx 1)
        \<lparr>Repository = ''repo''\<rparr>) [])
       = applied ''repo'' (take (k - 1) (ms @ ss)) @
         [DriverInitRepository ''repo'' ((ms @ ss) ! (k - 1)) (Some ''disk'')] \<and>
     last (log_of (InitRepository (demo [] [2]) (demo_extern id None None) (Ctx 1)
        \<lparr>Repository = ''repo''\<rparr>) [])
       = DriverInitRepository ''repo'' ((ms @ ss) ! (k - 1)) (Some ''disk'') \<and>
     result_of (InitRepository (demo [] [2]) (demo_extern id None None) (Ctx 1)
        \<lparr>Repository = ''repo''\<rparr>) [] = Inl ''disk''"
    using InitRepository_fan_out [OF num master slave range, of "[2]" "Ctx 1" "\<lparr>Repository = ''repo''\<rparr>" "[]"] bad
    unfolding m s by (elim exE conjE) (intro exI conjI, simp_all)
  from first second show ?thesis by (rule conjI)
qed

text \<open>
  Claim C3, as the specification states it: the shards are attempted in shard-index
  order, none after the first failing shard, and the error tells which shard failed. It
  fails on both counts. The order is that of a \<open>range\<close> over a Go map: when it visits
  the master shards as 2, 0 and the driver fails on shard 0, shard 2, which comes after
  shard 0 by index, has been attempted. And the error returned is the driver's own: the
  failure on shard 0 and a failure on shard 2 return the same value.
\<close>

theorem InitRepository_shard_order_counterexample:
  "init_shards (log_of (InitRepository (demo [] [0]) (demo_extern rev None None) (Ctx 1)
      \<lparr>Repository = ''repo''\<rparr>) []) = [2, 0] \<and>
   \<not> sorted (init_shards (log_of (InitRepository (demo [] [0]) (demo_extern rev None None) (Ctx 1)
      \<lparr>Repository = ''repo''\<rparr>) [])) \<and>
   last (log_of (InitRepository (demo [] [0]) (demo_extern rev None None) (Ctx 1)
      \<lparr>Repository = ''repo''\<rparr>) []) = DriverInitRepository ''repo'' 0 (Some ''disk'') \<and>
   result_of (InitRepository (demo [] [0]) (demo_extern rev None None) (Ctx 1)
      \<lparr>Repository = ''repo''\<rparr>) [] = Inl ''disk'' \<and>
   last (log_of (InitRepository (demo [] [2]) (demo_extern rev None None) (Ctx 1)
      \<lparr>Repository = ''repo''\<rparr>) []) = DriverInitRepository ''repo'' 2 (Some ''disk'') \<and>
   result_of (InitRepository (demo [] [2]) (demo_extern rev None None) (Ctx 1)
      \<lparr>Repository = ''repo''\<rparr>) [] = Inl ''disk''"
  by (simp add: demo_defs InitRepository_def getMasterShards_def getSlaveShards_def
      getShards_def getShards_loop.simps range_keys_def call_def init_def log_of_def result_of_def)

text \<open>
  Claim C3, amended. On a node of \<open>n\<close> shards whose role predicates never fail, where
  \<open>range\<close> visits the keys of a map \<open>m\<close> in the order \<open>ord m\<close>, an InitRepository that
  returns an error \<open>e\<close> has called the driver for the shards in the order of the visit
  (the master shards as \<open>range\<close> visits them, then the slave shards as \<open>range\<close> visits
  them; not the order of the shard index), all with success up to one shard \<open>s\<close> of that
  order, for which the driver returned \<open>e\<close>. That call is the last call of the operation:
  no shard after \<open>s\<close> is attempted, and nothing is undone for the shards applied. The
  error returned is the driver's error, unchanged; the server adds no shard to it.
\<close>

theorem InitRepository_fail_fast:
  fixes a :: "('w, 'e) apiServer" and x :: "('w, 'e) Extern"
  assumes num: "\<forall>w. NumShards (sharder a) w = (n, w)"
    and master: "\<forall>j w. IsLocalMasterShard (router a) j w = (Inr (mst j), w)"
    and slave: "\<forall>j w. IsLocalSlaveShard (router a) j w = (Inr (slv j), w)"
    and range: "\<forall>m w. mapRange x m w = (ord m, w)"
    and fails: "result_of (InitRepository a x ctx req) w = Inl e"
  shows "\<exists>k. k < length (visit_order ord n mst slv) \<and>
     filter is_driver_call (log_of (InitRepository a x ctx req) w)
       = applied (Repository req) (take k (visit_order ord n mst slv)) @
         [DriverInitRepository (Repository req) (visit_order ord n mst slv ! k) (Some e)] \<and>
     last (log_of (InitRepository a x ctx req) w)
       = DriverInitRepository (Repository req) (visit_order ord n mst slv ! k) (Some e)"
  using num master slave
proof (cases rule: InitRepository_pure_runs [where x = x and w = w and ctx = ctx and req = req])
  case (success ms w1 w2 ss w3)
  with fails show ?thesis by simp
next
  case (master_failure ms w1 k e')
  from master_failure(1) range have ms: "ms = ord (role_map n mst)" by simp
  from master_failure(3) fails have e: "e' = e" by simp
  have "k < length (visit_order ord n mst slv)"
    using master_failure(2) ms by (simp add: visit_order_def)
  moreover have "take k (visit_order ord n mst slv) = take k ms" "visit_order ord n mst slv ! k = ms ! k"
    using master_failure(2) ms by (simp_all add: visit_order_def nth_append)
  ultimately show ?thesis
    using master_failure(4) e by (intro exI [of _ k]) (simp add: log_simps)
next
  case (slave_failure ms w1 w2 ss w3 k e')
  from slave_failure(1,2) range have ms: "ms = ord (role_map n mst)" and ss: "ss = ord (role_map n slv)"
    by simp_all
  from slave_failure(4) fails have e: "e' = e" by simp
  have "length ms + k < length (visit_order ord n mst slv)"
    using slave_failure(3) ms ss by (simp add: visit_order_def)
  moreover have "take (length ms + k) (visit_order ord n mst slv) = ms @ take k ss"
    "visit_order ord n mst slv ! (length ms + k) = ss ! k"
    using ms ss by (simp_all add: visit_order_def nth_append)
  ultimately show ?thesis
    using slave_failure(5) e by (intro exI [of _ "length ms + k"]) (simp add: log_simps applied_def)
qed

text \<open>
  When \<open>range\<close> visits the keys in descending order, the order of the visit on the
  four-shard node is 2, 0, 3, 1; with a driver that fails on shard 0 the calls stop at
  the second shard of that order.
\<close>

theorem InitRepository_fail_fast_witness:
  "\<exists>k. k < length [2, 0, 3, 1 :: int] \<and>
     filter is_driver_call (log_of (InitRepository (demo [] [0]) (demo_extern rev None None) (Ctx 1)
        \<lparr>Repository = ''repo''\<rparr>) [])
       = applied ''repo'' (take k [2, 0, 3, 1]) @ [DriverInitRepository ''repo'' ([2, 0, 3, 1] ! k) (Some ''disk'')] \<and>
     last (log_of (InitRepository (demo [] [0]) (demo_extern rev None None) (Ctx 1)
        \<lparr>Repository = ''repo''\<rparr>) [])
       = DriverInitRepository ''repo'' ([2, 0, 3, 1] ! k) (Some ''disk'')"
proof -
  let ?mst = "\<lambda>j::int. j = 0 \<or> j = 2" and ?slv = "\<lambda>j::int. j = 1 \<or> j = 3"
  let ?ord = "\<lambda>m :: (int \<times> bool) list. rev (map fst m)"
  have num: "\<forall>w. NumShards (sharder (demo [] [0])) w = (4, w)"
    and master: "\<forall>j w. IsLocalMasterShard (router (demo [] [0])) j w = (Inr (?mst j), w)"
    and slave: "\<forall>j w. IsLocalSlaveShard (router (demo [] [0])) j w = (Inr (?slv j), w)"
    and range: "\<forall>m w. mapRange (demo_extern rev None None) m w = (?ord m, w)"
    by (simp_all add: demo_defs)
  have fails: "result_of (InitRepository (demo [] [0]) (demo_extern rev None None) (Ctx 1)
        \<lparr>Repository = ''repo''\<rparr>) [] = Inl ''disk''"
    by (simp add: demo_defs InitRepository_def getMasterShards_def getSlaveShards_def
        getShards_def getShards_loop.simps range_keys_def call_def init_def result_of_def)
  have order: "visit_order ?ord 4 ?mst ?slv = [2, 0, 3, 1]"
    by (simp add: visit_order_def role_map_def upto_rec1)
  show ?thesis
    using InitRepository_fail_fast [OF num master slave range fails] unfolding order by simp
qed

end
